theory Spec2Isabelle
  imports Complex_Main "HOL-Library.Sublist" "HOL-Library.Product_Lexorder"
begin

section \<open>Values of the tables\<close>

text \<open>
  The dashboard \<^verbatim>\<open>src/analysis/fianl_data.py\<close> works on pandas tables. An integer column
  (\<^verbatim>\<open>Year\<close>, \<^verbatim>\<open>Month\<close>, \<^verbatim>\<open>Arrests\<close>) holds 64-bit integers; a value is an \<open>int\<close>, and
  the sum of a column wraps around as the 64-bit addition does. A floating-point column
  (\<^verbatim>\<open>3_Month_Avg\<close>, \<^verbatim>\<open>12_Month_Avg\<close>, \<^verbatim>\<open>YoY_Change\<close>) and every floating-point result
  holds a value of \<open>float64\<close>: a finite number, one of the two infinities, or NaN, which
  pandas also uses for an absent cell.
\<close>

datatype float64 = Finite real | PInf | NInf | NaN

text \<open>
  The result of an operation on finite values is the exact result rounded to binary64:
  to the nearest multiple of the quantum of its binade (53 significant bits, the smallest
  quantum \<open>2 ^ (-1074)\<close>), a tie going to the even multiple, and to an infinity when the
  rounded magnitude reaches \<open>2 ^ 1024\<close>. The special values follow IEEE 754 as numpy
  implements it: a division by zero does not raise, it yields an infinity or NaN. The zero
  of the model is the positive zero.
\<close>

definition round_half_even :: "real \<Rightarrow> int" where
  "round_half_even y =
     (if y - of_int \<lfloor>y\<rfloor> < 1 / 2 then \<lfloor>y\<rfloor>
      else if 1 / 2 < y - of_int \<lfloor>y\<rfloor> then \<lfloor>y\<rfloor> + 1
      else if even \<lfloor>y\<rfloor> then \<lfloor>y\<rfloor> else \<lfloor>y\<rfloor> + 1)"

definition exponent :: "real \<Rightarrow> int" where
  "exponent x = max \<lfloor>log 2 \<bar>x\<bar>\<rfloor> (- 1022)"

definition quantum :: "real \<Rightarrow> real" where
  "quantum x = 2 powr (of_int (exponent x) - 52)"

definition round64 :: "real \<Rightarrow> float64" where
  "round64 x =
     (if x = 0 then Finite 0
      else if 2 ^ 1024 \<le> \<bar>of_int (round_half_even (x / quantum x)) * quantum x\<bar>
           then (if 0 < x then PInf else NInf)
      else Finite (of_int (round_half_even (x / quantum x)) * quantum x))"

text \<open>The conversion of a 64-bit integer to \<open>float64\<close>.\<close>

definition float_of_int :: "int \<Rightarrow> float64" where
  "float_of_int k = round64 (real_of_int k)"

fun fadd :: "float64 \<Rightarrow> float64 \<Rightarrow> float64" where
  "fadd NaN _ = NaN"
| "fadd _ NaN = NaN"
| "fadd PInf NInf = NaN"
| "fadd NInf PInf = NaN"
| "fadd PInf _ = PInf"
| "fadd _ PInf = PInf"
| "fadd NInf _ = NInf"
| "fadd _ NInf = NInf"
| "fadd (Finite a) (Finite b) = round64 (a + b)"

fun fneg :: "float64 \<Rightarrow> float64" where
  "fneg NaN = NaN"
| "fneg PInf = NInf"
| "fneg NInf = PInf"
| "fneg (Finite a) = Finite (- a)"

definition fsub :: "float64 \<Rightarrow> float64 \<Rightarrow> float64" where
  "fsub x y = fadd x (fneg y)"

fun fmul :: "float64 \<Rightarrow> float64 \<Rightarrow> float64" where
  "fmul NaN _ = NaN"
| "fmul _ NaN = NaN"
| "fmul (Finite a) (Finite b) = round64 (a * b)"
| "fmul PInf (Finite b) = (if b = 0 then NaN else if 0 < b then PInf else NInf)"
| "fmul NInf (Finite b) = (if b = 0 then NaN else if 0 < b then NInf else PInf)"
| "fmul (Finite a) PInf = (if a = 0 then NaN else if 0 < a then PInf else NInf)"
| "fmul (Finite a) NInf = (if a = 0 then NaN else if 0 < a then NInf else PInf)"
| "fmul PInf PInf = PInf"
| "fmul NInf NInf = PInf"
| "fmul PInf NInf = NInf"
| "fmul NInf PInf = NInf"

fun fdiv :: "float64 \<Rightarrow> float64 \<Rightarrow> float64" where
  "fdiv NaN _ = NaN"
| "fdiv _ NaN = NaN"
| "fdiv (Finite a) (Finite b) =
     (if b = 0 then (if a = 0 then NaN else if 0 < a then PInf else NInf)
      else round64 (a / b))"
| "fdiv (Finite a) PInf = Finite 0"
| "fdiv (Finite a) NInf = Finite 0"
| "fdiv PInf (Finite b) = (if 0 \<le> b then PInf else NInf)"
| "fdiv NInf (Finite b) = (if 0 \<le> b then NInf else PInf)"
| "fdiv PInf PInf = NaN"
| "fdiv PInf NInf = NaN"
| "fdiv NInf PInf = NaN"
| "fdiv NInf NInf = NaN"

text \<open>The comparison \<^verbatim>\<open>x > y\<close>: every comparison with NaN is false.\<close>

fun fgt :: "float64 \<Rightarrow> float64 \<Rightarrow> bool" where
  "fgt NaN _ = False"
| "fgt _ NaN = False"
| "fgt (Finite a) (Finite b) = (b < a)"
| "fgt PInf PInf = False"
| "fgt PInf _ = True"
| "fgt NInf _ = False"
| "fgt (Finite a) PInf = False"
| "fgt (Finite a) NInf = True"

definition isna :: "float64 \<Rightarrow> bool" where
  "isna x = (x = NaN)"

text \<open>
  \<^verbatim>\<open>Series.sum()\<close> and \<^verbatim>\<open>Series.mean()\<close> of a floating-point column skip NaN
  (\<^verbatim>\<open>skipna=True\<close>): the sum of the remaining values starts from zero, so that the sum of a
  column without any value is \<open>0.0\<close>; the mean divides that sum by the number of values that
  are not NaN and is NaN when there is none. The additions run from left to right, each one
  rounded; the order in which numpy groups the additions of a long column is not modelled.
  The number of values is below \<open>2 ^ 53\<close> and converts exactly.
\<close>

definition nansum :: "float64 list \<Rightarrow> float64" where
  "nansum xs = foldl fadd (Finite 0) (filter (\<lambda>x. \<not> isna x) xs)"

definition nanmean :: "float64 list \<Rightarrow> float64" where
  "nanmean xs =
     (let count = length (filter (\<lambda>x. \<not> isna x) xs)
      in if 0 < count then fdiv (nansum xs) (Finite (real count)) else NaN)"

text \<open>
  The sum of an integer column is a 64-bit sum: each addition wraps around to the range
  from \<open>-2 ^ 63\<close> to \<open>2 ^ 63 - 1\<close>. The mean of an integer column is computed in
  floating point, from the values converted to \<open>float64\<close>; the mean of an empty column is
  NaN.
\<close>

definition wrap64 :: "int \<Rightarrow> int" where
  "wrap64 n = (n + 2 ^ 63) mod 2 ^ 64 - 2 ^ 63"

definition int_sum :: "int list \<Rightarrow> int" where
  "int_sum xs = foldl (\<lambda>a b. wrap64 (a + b)) 0 xs"

definition int_mean :: "int list \<Rightarrow> float64" where
  "int_mean xs =
     (if 0 < length xs
      then fdiv (foldl fadd (Finite 0) (map float_of_int xs)) (Finite (real (length xs)))
      else NaN)"

text \<open>
  The two constants of the error of one rounding: the relative error of a result in the
  normal range and the absolute error of a result below it.
\<close>

definition unit_roundoff :: real where
  "unit_roundoff = 2 powr (- 53)"

definition underflow_unit :: real where
  "underflow_unit = 2 powr (- 1075)"

section \<open>The monthly table and the year-range filter\<close>

text \<open>One row of \<^verbatim>\<open>weapon_arrests_monthly.csv\<close>, with the columns the dashboard reads.\<close>

record row =
  Year :: int
  Month :: int
  Year_Month :: string
  Arrests :: int
  Avg_3_Month :: float64
  Avg_12_Month :: float64
  YoY_Change :: float64

type_synonym monthly_table = "row list"

text \<open>
  \<^verbatim>\<open>monthly_data[(monthly_data['Year'] >= year_range[0]) & (monthly_data['Year'] <= year_range[1])]\<close>:
  two boolean columns are computed from the \<^verbatim>\<open>Year\<close> column, combined elementwise, and the
  rows at which the mask is true are selected.
\<close>

definition ge_mask :: "int list \<Rightarrow> int \<Rightarrow> bool list" where
  "ge_mask ys lo = map (\<lambda>y. lo \<le> y) ys"

definition le_mask :: "int list \<Rightarrow> int \<Rightarrow> bool list" where
  "le_mask ys hi = map (\<lambda>y. y \<le> hi) ys"

definition and_mask :: "bool list \<Rightarrow> bool list \<Rightarrow> bool list" where
  "and_mask ps qs = map (\<lambda>(p, q). p \<and> q) (zip ps qs)"

definition bool_index :: "'a list \<Rightarrow> bool list \<Rightarrow> 'a list" where
  "bool_index rows bs = map fst (filter snd (zip rows bs))"

definition filtered_data :: "monthly_table \<Rightarrow> int \<times> int \<Rightarrow> monthly_table" where
  "filtered_data monthly_data year_range =
     bool_index monthly_data
       (and_mask (ge_mask (map Year monthly_data) (fst year_range))
                 (le_mask (map Year monthly_data) (snd year_range)))"

section \<open>Key metrics\<close>

definition total_arrests :: "monthly_table \<Rightarrow> int" where
  "total_arrests fd = int_sum (map Arrests fd)"

definition avg_monthly :: "monthly_table \<Rightarrow> float64" where
  "avg_monthly fd = int_mean (map Arrests fd)"

definition yoy_change :: "monthly_table \<Rightarrow> float64" where
  "yoy_change fd = nanmean (map YoY_Change fd)"

datatype trend_symbol = Chart_increasing | Chart_decreasing

definition trend :: "float64 \<Rightarrow> trend_symbol" where
  "trend y = (if fgt y (Finite 0) then Chart_increasing else Chart_decreasing)"

section \<open>Group-by aggregation: the table of yearly changes\<close>

text \<open>
  \<^verbatim>\<open>filtered_data.groupby('Year')['Arrests']\<close>: one group for each year of the table, the
  years in ascending order, each group holding the \<^verbatim>\<open>Arrests\<close> of that year's rows in
  the order of the table.
\<close>

definition sorted_unique :: "int list \<Rightarrow> int list" where
  "sorted_unique ks = sort (remdups ks)"

definition groupby_Year_Arrests :: "monthly_table \<Rightarrow> (int \<times> int list) list" where
  "groupby_Year_Arrests fd =
     map (\<lambda>y. (y, map Arrests (filter (\<lambda>r. Year r = y) fd))) (sorted_unique (map Year fd))"

text \<open>
  \<^verbatim>\<open>x.shift(12)\<close> moves the values of the group \<open>x\<close> down by twelve positions within the
  group: the first twelve positions (or all of them, in a shorter group) become NaN, and the
  column becomes a floating-point column.
\<close>

definition shift :: "nat \<Rightarrow> int list \<Rightarrow> float64 list" where
  "shift k x =
     replicate (min k (length x)) NaN @ map float_of_int (take (length x - k) x)"

text \<open>\<^verbatim>\<open>lambda x: ((x.sum() / x.shift(12).sum()) - 1) * 100\<close>\<close>

definition yoy_lambda :: "int list \<Rightarrow> float64" where
  "yoy_lambda x =
     fmul (fsub (fdiv (float_of_int (int_sum x)) (nansum (shift 12 x))) (Finite 1))
          (Finite 100)"

record yearly_change =
  yc_Year :: int
  Total_Arrests :: int
  yc_YoY_Change :: float64

definition yearly_changes :: "monthly_table \<Rightarrow> yearly_change list" where
  "yearly_changes fd =
     map (\<lambda>(y, x). \<lparr>yc_Year = y, Total_Arrests = int_sum x, yc_YoY_Change = yoy_lambda x\<rparr>)
         (groupby_Year_Arrests fd)"

section \<open>Pivot tables\<close>

text \<open>
  The exceptions of the program. \<open>ValueError\<close> is what pandas and Python raise in the code;
  \<open>MalformedInputError\<close> is the error the specification names, which no statement of the
  program raises. \<open>TypeError\<close> stands for the use of a name that holds no table.
\<close>

datatype py_error = ValueError | TypeError | MalformedInputError

text \<open>
  \<^verbatim>\<open>DataFrame.pivot(index=i, columns=c, values=v)\<close> reshapes without aggregating: the result
  has one line for each value of \<open>i\<close> and one column for each value of \<open>c\<close>, both ascending,
  and the cell holds \<open>v\<close> of the row with that pair (no value, shown as NaN, when there is
  no such row). Two rows with the same pair make it raise
  \<^verbatim>\<open>ValueError: Index contains duplicate entries, cannot reshape\<close>.
\<close>

record 'v pivot_table =
  p_index :: "int list"
  p_columns :: "int list"
  p_values :: "'v option list list"

definition pivot :: "(row \<Rightarrow> int) \<Rightarrow> (row \<Rightarrow> int) \<Rightarrow> (row \<Rightarrow> 'v) \<Rightarrow> monthly_table
    \<Rightarrow> py_error + 'v pivot_table" where
  "pivot i c v fd =
     (if \<not> distinct (map (\<lambda>r. (i r, c r)) fd) then Inl ValueError
      else Inr \<lparr>p_index = sorted_unique (map i fd),
                p_columns = sorted_unique (map c fd),
                p_values = map (\<lambda>a. map (\<lambda>b. map_option v (find (\<lambda>r. i r = a \<and> c r = b) fd))
                                         (sorted_unique (map c fd)))
                               (sorted_unique (map i fd))\<rparr>)"

definition yearly_comparison :: "monthly_table \<Rightarrow> py_error + int pivot_table" where
  "yearly_comparison fd = pivot Month Year Arrests fd"

definition yoy_pivot :: "monthly_table \<Rightarrow> py_error + float64 pivot_table" where
  "yoy_pivot fd = pivot Year Month YoY_Change fd"

section \<open>The script: what it reads and what it renders\<close>

text \<open>
  The two other tables are only displayed. A row of \<^verbatim>\<open>weapon_arrests_summary.csv\<close> holds
  \<^verbatim>\<open>Year\<close>, \<^verbatim>\<open>Total_Arrests\<close>, \<^verbatim>\<open>Average_Monthly_Arrests\<close>, \<^verbatim>\<open>Max_Monthly_Arrests\<close>,
  \<^verbatim>\<open>Min_Monthly_Arrests\<close>, \<^verbatim>\<open>Standard_Deviation\<close>; a row of
  \<^verbatim>\<open>weapon_arrests_monthly_averages.csv\<close> holds \<^verbatim>\<open>Month\<close>, \<^verbatim>\<open>Average_Arrests\<close>,
  \<^verbatim>\<open>Std_Dev\<close>, \<^verbatim>\<open>Min_Arrests\<close>, \<^verbatim>\<open>Max_Arrests\<close>.
\<close>

type_synonym summary_table = "(int \<times> float64 \<times> float64 \<times> float64 \<times> float64 \<times> float64) list"
type_synonym averages_table = "(int \<times> float64 \<times> float64 \<times> float64 \<times> float64) list"

text \<open>
  What \<^verbatim>\<open>pd.read_csv\<close> finds at a path: no file (it raises \<^verbatim>\<open>FileNotFoundError\<close>), a file
  it cannot read as a table (any other exception, with its message), or a table.
\<close>

datatype 'a csv_file = File_missing | Unreadable string | Contents 'a

text \<open>
  The environment of one run: the directory of the script, the three files, and what the
  footer and the debug section of the sidebar show (the date, the working directory and
  its listing).
\<close>

record env =
  dirname :: string
  monthly_csv :: "monthly_table csv_file"
  summary_csv :: "summary_table csv_file"
  averages_csv :: "averages_table csv_file"
  today :: string
  getcwd :: string
  listdir :: "string list"

datatype load_exception = FileNotFoundError string | Exception string

definition path_join :: "string \<Rightarrow> string \<Rightarrow> string" where
  "path_join dir name = (if dir \<noteq> [] \<and> last dir = CHR ''/'' then dir @ name else dir @ ''/'' @ name)"

definition read_csv :: "string \<Rightarrow> 'a csv_file \<Rightarrow> load_exception + 'a" where
  "read_csv path f =
     (case f of
        File_missing \<Rightarrow>
          Inl (FileNotFoundError (''[Errno 2] No such file or directory: '' @ path))
      | Unreadable msg \<Rightarrow> Inl (Exception msg)
      | Contents t \<Rightarrow> Inr t)"

definition monthly_name :: string where
  "monthly_name = ''weapon_arrests_monthly.csv''"

definition summary_name :: string where
  "summary_name = ''weapon_arrests_summary.csv''"

definition averages_name :: string where
  "averages_name = ''weapon_arrests_monthly_averages.csv''"

text \<open>The three reads of the \<^verbatim>\<open>try\<close> block, in order; the first exception ends the block.\<close>

definition read_files :: "env \<Rightarrow> string
    \<Rightarrow> load_exception + (monthly_table \<times> summary_table \<times> averages_table)" where
  "read_files e dir =
     (case read_csv (path_join dir monthly_name) (monthly_csv e) of
        Inl x \<Rightarrow> Inl x
      | Inr md \<Rightarrow>
          (case read_csv (path_join dir summary_name) (summary_csv e) of
             Inl x \<Rightarrow> Inl x
           | Inr sd \<Rightarrow>
               (case read_csv (path_join dir averages_name) (averages_csv e) of
                  Inl x \<Rightarrow> Inl x
                | Inr ma \<Rightarrow> Inr (md, sd, ma))))"

text \<open>
  What a run shows, in order. A metric carries the number it formats; a chart carries the
  data it draws; the texts are the ASCII part of the source's texts, without the
  indentation of the multi-line literals.
\<close>

datatype metric_value =
    Count int
  | Number float64
  | Percent float64
  | Symbol trend_symbol

datatype figure =
    Fig_monthly_trends "string list" "int list" "float64 list" "float64 list"
  | Fig_year_comparison "int pivot_table"
  | Fig_heatmap "float64 pivot_table"
  | Fig_average_monthly averages_table
  | Fig_monthly_distribution "int list" "int list"

datatype frame_view =
    Summary_view summary_table
  | Averages_view averages_table
  | Yearly_changes_view "yearly_change list"

datatype event =
    Set_page_config
  | Markdown string
  | Title string
  | Subheader string
  | Columns nat
  | Tabs "string list"
  | Sidebar_title string
  | Sidebar_markdown string
  | Sidebar_write string "string list"
  | Select_slider "int list" "int \<times> int"
  | Error string
  | Metric string metric_value
  | Plotly_chart figure
  | Dataframe frame_view

definition newline :: string where
  "newline = [CHR 0x0A]"

definition not_found_message :: "string \<Rightarrow> string \<Rightarrow> string" where
  "not_found_message dir details =
     newline @ ''Error: Could not find one or more data files.'' @ newline @ newline
     @ ''Please ensure the following files are in the directory '' @ dir @ '':'' @ newline
     @ ''- '' @ monthly_name @ newline
     @ ''- '' @ summary_name @ newline
     @ ''- '' @ averages_name @ newline @ newline
     @ ''Error details: '' @ details @ newline"

text \<open>
  \<^verbatim>\<open>load_data\<close>: the result is \<open>None\<close> when \<^verbatim>\<open>st.stop()\<close> ended the run in one of the
  two handlers.
\<close>

definition load_data :: "env
    \<Rightarrow> event list \<times> (monthly_table \<times> summary_table \<times> averages_table) option" where
  "load_data e =
     (let script_dir = (if dirname e = [] then ''.'' else dirname e);
          looking = [Sidebar_write ''Looking for data files in:'' [script_dir]]
      in case read_files e script_dir of
           Inr tables \<Rightarrow> (looking, Some tables)
         | Inl (FileNotFoundError details) \<Rightarrow>
             (looking @ [Error (not_found_message script_dir details)], None)
         | Inl (Exception details) \<Rightarrow>
             (looking @ [Error (''An unexpected error occurred: '' @ details)], None))"

definition header :: "event list" where
  "header =
     [Set_page_config,
      Markdown ''<style> .main { padding: 2rem; } .stMetric { background-color: #f8f9fa; padding: 1rem; border-radius: 0.5rem; } </style>'',
      Title ''New Mexico Weapon-Related Arrests Analysis'',
      Markdown ''This dashboard analyzes weapon-related arrests in New Mexico from 2018 to 2023. Use the controls in the sidebar to explore different aspects of the data.'']"

definition key_metrics :: "monthly_table \<Rightarrow> event list" where
  "key_metrics fd =
     [Markdown ''### Key Metrics'',
      Columns 4,
      Metric ''Total Arrests'' (Count (total_arrests fd)),
      Metric ''Average Monthly Arrests'' (Number (avg_monthly fd)),
      Metric ''Average YoY Change'' (Percent (yoy_change fd)),
      Metric ''Overall Trend'' (Symbol (trend (yoy_change fd)))]"

definition tab1 :: "monthly_table \<Rightarrow> event list" where
  "tab1 fd =
     [Markdown ''### Monthly Arrest Trends'',
      Plotly_chart (Fig_monthly_trends (map Year_Month fd) (map Arrests fd)
                      (map Avg_3_Month fd) (map Avg_12_Month fd))]"

text \<open>The second tab stops at the first pivot that raises, with what it has shown so far.\<close>

definition tab2 :: "monthly_table \<Rightarrow> event list \<times> py_error option" where
  "tab2 fd =
     (case yearly_comparison fd of
        Inl err \<Rightarrow> ([Markdown ''### Year-over-Year Comparison''], Some err)
      | Inr yc \<Rightarrow>
          (case yoy_pivot fd of
             Inl err \<Rightarrow>
               ([Markdown ''### Year-over-Year Comparison'',
                 Plotly_chart (Fig_year_comparison yc)], Some err)
           | Inr yp \<Rightarrow>
               ([Markdown ''### Year-over-Year Comparison'',
                 Plotly_chart (Fig_year_comparison yc),
                 Plotly_chart (Fig_heatmap yp)], None)))"

definition tab3 :: "averages_table \<Rightarrow> monthly_table \<Rightarrow> event list" where
  "tab3 ma fd =
     [Markdown ''### Seasonal Patterns'',
      Columns 2,
      Plotly_chart (Fig_average_monthly ma),
      Plotly_chart (Fig_monthly_distribution (map Month fd) (map Arrests fd))]"

definition tab4 :: "summary_table \<Rightarrow> averages_table \<Rightarrow> monthly_table \<Rightarrow> event list" where
  "tab4 sd ma fd =
     [Markdown ''### Detailed Statistics'',
      Subheader ''Yearly Summary'',
      Dataframe (Summary_view sd),
      Columns 2,
      Subheader ''Monthly Statistics'',
      Dataframe (Averages_view ma),
      Subheader ''Year-over-Year Changes'',
      Dataframe (Yearly_changes_view (yearly_changes fd))]"

definition footer :: "env \<Rightarrow> event list" where
  "footer e =
     [Markdown ''---'',
      Markdown (''Data source: NIBRS (National Incident-Based Reporting System)'' @ newline
                @ ''Last updated: '' @ today e),
      Sidebar_markdown ''---'',
      Sidebar_markdown ''### Debug Information'',
      Sidebar_write ''Current working directory:'' [getcwd e],
      Sidebar_write ''Files in directory:'' (listdir e)]"

datatype outcome = Completed | Stopped | Raised py_error

text \<open>
  One run of the script in the environment \<open>e\<close>, the slider returning \<open>year_range\<close>
  (in the browser a pair of its options, the lower one first; the model takes any pair).
  \<^verbatim>\<open>min(years)\<close> raises \<^verbatim>\<open>ValueError\<close> when the monthly table has no row. The calls
  that draw a chart or display a table are taken to succeed; the statements that compute
  what they show are the ones that can raise.
\<close>

definition tab_names :: "string list" where
  "tab_names = [''Monthly Trends'', ''Year Comparison'', ''Seasonal Analysis'', ''Statistics'']"

definition run :: "env \<Rightarrow> int \<times> int \<Rightarrow> event list \<times> outcome" where
  "run e year_range =
     (case load_data e of
        (loading, None) \<Rightarrow> (header @ loading, Stopped)
      | (loading, Some (monthly_data, summary_data, monthly_averages)) \<Rightarrow>
          (let years = sorted_unique (map Year monthly_data)
           in if years = [] then
                (header @ loading @ [Sidebar_title ''Dashboard Controls''], Raised ValueError)
              else
                (let fd = filtered_data monthly_data year_range;
                     shown = header @ loading
                       @ [Sidebar_title ''Dashboard Controls'',
                          Select_slider years (foldl min (hd years) years, foldl max (hd years) years)]
                       @ key_metrics fd @ [Tabs tab_names] @ tab1 fd
                 in case tab2 fd of
                      (second, Some err) \<Rightarrow> (shown @ second, Raised err)
                    | (second, None) \<Rightarrow>
                        (shown @ second @ tab3 monthly_averages fd
                           @ tab4 summary_data monthly_averages fd @ footer e,
                         Completed))))"

text \<open>The events that show data of the tables: metrics, charts and displayed tables.\<close>

fun shows_data :: "event \<Rightarrow> bool" where
  "shows_data (Metric _ _) = True"
| "shows_data (Plotly_chart _) = True"
| "shows_data (Dataframe _) = True"
| "shows_data _ = False"

fun is_chart :: "event \<Rightarrow> bool" where
  "is_chart (Plotly_chart _) = True"
| "is_chart _ = False"

fun is_error :: "event \<Rightarrow> bool" where
  "is_error (Error _) = True"
| "is_error _ = False"

section \<open>The tables as objects: which statement writes where\<close>

text \<open>
  pandas tables are mutable objects and a Python name holds a reference. The store is the
  list of the objects made so far, a reference is a position in it. Boolean indexing,
  \<^verbatim>\<open>pivot\<close> and \<^verbatim>\<open>groupby(...).agg(...).reset_index()\<close> each build a new object and leave
  the table they read as it is; the script has no statement that assigns into a table.
  The temporary columns (the masks, \<^verbatim>\<open>x.shift(12)\<close>) are new objects as well and are not
  kept in the store.
\<close>

datatype obj =
    DataFrame monthly_table
  | Int_pivot "int pivot_table"
  | Float_pivot "float64 pivot_table"
  | Changes "yearly_change list"

type_synonym store = "obj list"

definition lookup :: "store \<Rightarrow> nat \<Rightarrow> obj option" where
  "lookup h a = (if a < length h then Some (h ! a) else None)"

definition new :: "obj \<Rightarrow> store \<Rightarrow> nat \<times> store" where
  "new v h = (length h, h @ [v])"

record names =
  n_filtered_data :: nat
  n_yearly_comparison :: nat
  n_yoy_pivot :: nat
  n_yearly_changes :: nat

text \<open>
  The derived tables of one run, in the order of the script, from the store \<open>h\<close> in which
  the name \<^verbatim>\<open>monthly_data\<close> refers to the loaded table. A pivot that raises ends the run
  there.
\<close>

definition derive :: "store \<Rightarrow> nat \<Rightarrow> int \<times> int \<Rightarrow> store \<times> (py_error + names)" where
  "derive h monthly_data year_range =
     (case lookup h monthly_data of
        Some (DataFrame rows) \<Rightarrow>
          (case new (DataFrame (filtered_data rows year_range)) h of
             (fd, h1) \<Rightarrow>
               (case lookup h1 fd of
                  Some (DataFrame frows) \<Rightarrow>
                    (case yearly_comparison frows of
                       Inl err \<Rightarrow> (h1, Inl err)
                     | Inr yc \<Rightarrow>
                         (case new (Int_pivot yc) h1 of
                            (a_yc, h2) \<Rightarrow>
                              (case yoy_pivot frows of
                                 Inl err \<Rightarrow> (h2, Inl err)
                               | Inr yp \<Rightarrow>
                                   (case new (Float_pivot yp) h2 of
                                      (a_yp, h3) \<Rightarrow>
                                        (case new (Changes (yearly_changes frows)) h3 of
                                           (a_ch, h4) \<Rightarrow>
                                             (h4, Inr \<lparr>n_filtered_data = fd,
                                                       n_yearly_comparison = a_yc,
                                                       n_yoy_pivot = a_yp,
                                                       n_yearly_changes = a_ch\<rparr>))))))
                | _ \<Rightarrow> (h1, Inl TypeError)))
      | _ \<Rightarrow> (h, Inl TypeError))"

section \<open>The rolling averages of the monthly table\<close>

text \<open>
  Modelled from the spec: the Aggregator's rolling averages. The dashboard reads the columns
  \<^verbatim>\<open>3_Month_Avg\<close> and \<^verbatim>\<open>12_Month_Avg\<close> from \<^verbatim>\<open>weapon_arrests_monthly.csv\<close> and draws them;
  the code that computes them is not among the sources. The specification (4.1, steps 1
  and 2) sorts the observations ascending by (Year, Month) and computes simple trailing
  moving averages over the sorted sequence with windows of size 3 and 12, a period
  contributing to its own window, the value left absent when fewer than the window size of
  periods exist. An observation is (Year, Month, Arrests); an absent value is \<open>None\<close>; the
  mean is exact.
\<close>

type_synonym observation = "int \<times> int \<times> int"

definition period :: "observation \<Rightarrow> int \<times> int" where
  "period ob = (fst ob, fst (snd ob))"

definition count :: "observation \<Rightarrow> int" where
  "count ob = snd (snd ob)"

definition sort_observations :: "observation list \<Rightarrow> observation list" where
  "sort_observations obs = sort_key period obs"

fun windows :: "nat \<Rightarrow> int list \<Rightarrow> int list list" where
  "windows k [] = []"
| "windows k (x # xs) = (if length (x # xs) < k then [] else take k (x # xs) # windows k xs)"

definition mean :: "int list \<Rightarrow> real" where
  "mean w = real_of_int (sum_list w) / real (length w)"

definition rolling_mean :: "nat \<Rightarrow> int list \<Rightarrow> real option list" where
  "rolling_mean k xs =
     replicate (min (k - 1) (length xs)) None @ map (\<lambda>w. Some (mean w)) (windows k xs)"

definition avg_3_month :: "observation list \<Rightarrow> real option list" where
  "avg_3_month obs = rolling_mean 3 (map count (sort_observations obs))"

definition avg_12_month :: "observation list \<Rightarrow> real option list" where
  "avg_12_month obs = rolling_mean 12 (map count (sort_observations obs))"

section \<open>Concrete tables\<close>

text \<open>
  Small tables on which the statements below are evaluated. \<open>obs_row y m a c\<close> is the row
  of year \<open>y\<close> and month \<open>m\<close> with \<open>a\<close> arrests and the year-over-year change \<open>c\<close>;
  \<open>year_2018\<close> is one full year of twelve months with ten arrests each.
\<close>

definition obs_row :: "int \<Rightarrow> int \<Rightarrow> int \<Rightarrow> float64 \<Rightarrow> row" where
  "obs_row y m a c =
     \<lparr>Year = y, Month = m, Year_Month = [], Arrests = a,
      Avg_3_Month = NaN, Avg_12_Month = NaN, YoY_Change = c\<rparr>"

definition year_2018 :: monthly_table where
  "year_2018 = map (\<lambda>m. obs_row 2018 m 10 NaN) [1, 2, 3, 4, 5, 6, 7, 8, 9, 10, 11, 12]"

text \<open>
  \<open>duplicate_2018\<close> holds January 2018 twice. \<open>env_on day m s a\<close> is the environment of a
  run on the date \<open>day\<close> with the three files \<open>m\<close>, \<open>s\<close> and \<open>a\<close>.
\<close>

definition duplicate_2018 :: monthly_table where
  "duplicate_2018 = [obs_row 2018 1 10 NaN, obs_row 2018 1 20 NaN]"

definition env_on :: "string \<Rightarrow> monthly_table csv_file \<Rightarrow> summary_table csv_file
    \<Rightarrow> averages_table csv_file \<Rightarrow> env" where
  "env_on day m s a =
     \<lparr>dirname = ''/app'', monthly_csv = m, summary_csv = s, averages_csv = a,
      today = day, getcwd = ''/app'', listdir = [monthly_name, summary_name, averages_name]\<rparr>"

text \<open>
  The scenario of the specification (8): three months of 2018 and January 2019.
\<close>

definition scenario :: "observation list" where
  "scenario = [(2018, 1, 10), (2018, 2, 20), (2018, 3, 30), (2019, 1, 15)]"

text \<open>The number a value stands for, where it is finite.\<close>

fun finite_value :: "float64 \<Rightarrow> real" where
  "finite_value (Finite r) = r"
| "finite_value _ = 0"

text \<open>The numbers of the \<^verbatim>\<open>YoY_Change\<close> column of a table, without the absent entries.\<close>

definition present_values :: "monthly_table \<Rightarrow> real list" where
  "present_values fd = map finite_value (filter (\<lambda>x. x \<noteq> NaN) (map YoY_Change fd))"

section \<open>Properties of the rounding\<close>

text \<open>
  One rounding moves a number by at most half a quantum, that is by at most
  \<open>unit_roundoff\<close> times its magnitude plus \<open>underflow_unit\<close>; a number of magnitude at
  most \<open>2 ^ 1023\<close> rounds to a finite value.
\<close>

lemma round_half_even_error: "\<bar>of_int (round_half_even y) - y\<bar> \<le> 1 / 2"
  unfolding round_half_even_def by (auto simp: abs_le_iff; linarith)

lemma quantum_pos: "0 < quantum x"
  by (simp add: quantum_def)

lemma exponent_cases:
  "exponent x = \<lfloor>log 2 \<bar>x\<bar>\<rfloor> \<or> exponent x = - 1022"
  unfolding exponent_def by linarith

lemma quantum_bound:
  assumes "x \<noteq> 0"
  shows "quantum x \<le> 2 powr (- 52) * \<bar>x\<bar> + 2 powr (- 1074)"
proof -
  consider "exponent x = \<lfloor>log 2 \<bar>x\<bar>\<rfloor>" | "exponent x = - 1022"
    using exponent_cases by blast
  then show ?thesis
  proof cases
    case 1
    then have "quantum x = 2 powr (of_int \<lfloor>log 2 \<bar>x\<bar>\<rfloor> - 52)"
      by (simp only: quantum_def)
    also have "\<dots> = 2 powr (of_int \<lfloor>log 2 \<bar>x\<bar>\<rfloor>) * 2 powr (- 52)"
      by (simp only: powr_diff powr_minus divide_inverse)
    also have "2 powr (of_int \<lfloor>log 2 \<bar>x\<bar>\<rfloor>) \<le> 2 powr (log 2 \<bar>x\<bar>)"
      by (rule powr_mono) simp_all
    also have "2 powr (log 2 \<bar>x\<bar>) = \<bar>x\<bar>"
      using assms by simp
    finally have "quantum x \<le> \<bar>x\<bar> * 2 powr (- 52)"
      by simp
    then have "quantum x \<le> \<bar>x\<bar> * 2 powr (- 52) + 2 powr (- 1074)"
      by (intro add_increasing2) simp_all
    then show ?thesis
      by (simp only: mult.commute)
  next
    case 2
    then have "quantum x = 2 powr (- 1074)"
      by (simp add: quantum_def)
    moreover have "0 \<le> 2 powr (- 52) * \<bar>x\<bar>" by simp
    ultimately show ?thesis by linarith
  qed
qed

lemma round_error:
  assumes "x \<noteq> 0"
  shows "\<bar>of_int (round_half_even (x / quantum x)) * quantum x - x\<bar>
         \<le> 2 powr (- 53) * \<bar>x\<bar> + 2 powr (- 1075)"
proof -
  let ?q = "quantum x"
  have q: "0 < ?q" by (rule quantum_pos)
  have "of_int (round_half_even (x / ?q)) * ?q - x = (of_int (round_half_even (x / ?q)) - x / ?q) * ?q"
    using q by (simp add: field_simps)
  then have "\<bar>of_int (round_half_even (x / ?q)) * ?q - x\<bar>
        = \<bar>of_int (round_half_even (x / ?q)) - x / ?q\<bar> * ?q"
    using q by (simp add: abs_mult)
  also have "\<dots> \<le> 1 / 2 * ?q"
    using q round_half_even_error [of "x / ?q"] by (intro mult_right_mono) simp_all
  also have "\<dots> \<le> 1 / 2 * (2 powr (- 52) * \<bar>x\<bar> + 2 powr (- 1074))"
    using quantum_bound [OF assms] by simp
  also have "\<dots> = 2 powr (- 53) * \<bar>x\<bar> + 2 powr (- 1075)"
  proof -
    have "(1 / 2 :: real) * 2 powr (- 52) = 2 powr (- 53)"
      and "(1 / 2 :: real) * 2 powr (- 1074) = 2 powr (- 1075)"
      by (simp_all add: powr_minus powr_numeral flip: power_Suc)
    then show ?thesis by (simp add: algebra_simps)
  qed
  finally show ?thesis .
qed

lemma round64_finite:
  assumes "\<bar>x\<bar> \<le> 2 ^ 1023"
  shows "\<exists>r. round64 x = Finite r \<and> \<bar>r - x\<bar> \<le> unit_roundoff * \<bar>x\<bar> + underflow_unit"
proof (cases "x = 0")
  case True
  then show ?thesis by (simp add: round64_def unit_roundoff_def underflow_unit_def)
next
  case False
  let ?r = "of_int (round_half_even (x / quantum x)) * quantum x"
  have e: "\<bar>?r - x\<bar> \<le> unit_roundoff * \<bar>x\<bar> + underflow_unit"
    unfolding unit_roundoff_def underflow_unit_def by (rule round_error [OF False])
  have "\<bar>?r\<bar> \<le> \<bar>x\<bar> + \<bar>?r - x\<bar>" by linarith
  also have "\<dots> \<le> \<bar>x\<bar> + (unit_roundoff * \<bar>x\<bar> + underflow_unit)"
    using e by linarith
  also have "\<dots> \<le> 2 ^ 1023 + (unit_roundoff * 2 ^ 1023 + underflow_unit)"
    using assms by (intro add_mono mult_left_mono) (simp_all add: unit_roundoff_def)
  also have "\<dots> < 2 ^ 1024"
    by (simp add: unit_roundoff_def underflow_unit_def powr_minus powr_numeral)
  finally have "\<not> 2 ^ 1024 \<le> \<bar>?r\<bar>" by simp
  then have "round64 x = Finite ?r"
    using False by (simp add: round64_def)
  with e show ?thesis by blast
qed

text \<open>
  The sum of a column of finite values from left to right and its mean: when the
  magnitudes add up to at most \<open>2 ^ 1000\<close> and there are at most \<open>2 ^ 20\<close> values, no
  addition overflows and the errors of the roundings add up to the bounds below.
\<close>

lemma roundoff_facts:
  "0 < unit_roundoff" "0 < underflow_unit"
  "2 ^ 21 * unit_roundoff \<le> 1"
  "2 * 2 ^ 1000 + 2 ^ 21 * underflow_unit \<le> 2 ^ 1023"
  by (simp_all add: unit_roundoff_def underflow_unit_def powr_minus powr_numeral)

lemma foldl_fadd_error:
  assumes "sum_list (map abs ws) \<le> A" "A \<le> 2 ^ 1000" "length ws \<le> 2 ^ 20"
  shows "\<exists>s. foldl fadd (Finite 0) (map Finite ws) = Finite s
           \<and> \<bar>s - sum_list ws\<bar> \<le> 2 * real (length ws) * (unit_roundoff * A + underflow_unit)"
  using assms
proof (induction ws rule: rev_induct)
  case Nil
  then show ?case by simp
next
  case (snoc w ws)
  define k where "k = real (length ws)"
  define c where "c = unit_roundoff * A + underflow_unit"
  have a: "sum_list (map abs ws) + \<bar>w\<bar> \<le> A" using snoc.prems(1) by simp
  have a0: "0 \<le> sum_list (map abs ws)" by (rule sum_list_nonneg) auto
  then have A0: "0 \<le> A" using a by linarith
  have l: "length ws \<le> 2 ^ 20" using snoc.prems(3) by simp
  have k0: "0 \<le> k" and k1: "k + 1 \<le> 2 ^ 20"
  proof -
    show "0 \<le> k" by (simp add: k_def)
    have "length ws + 1 \<le> 2 ^ 20" using snoc.prems(3) by simp
    then have "real (length ws + 1) \<le> real (2 ^ 20)" by (rule of_nat_mono)
    then show "k + 1 \<le> 2 ^ 20" by (simp add: k_def)
  qed
  have c0: "0 \<le> c"
    using A0 roundoff_facts(1,2) by (simp add: c_def)
  obtain s where s: "foldl fadd (Finite 0) (map Finite ws) = Finite s"
    and e: "\<bar>s - sum_list ws\<bar> \<le> 2 * k * c"
    using snoc.IH [OF _ snoc.prems(2) l] a unfolding k_def c_def by force
  have t: "\<bar>sum_list ws\<bar> \<le> sum_list (map abs ws)" by (rule sum_list_abs)
  have ku: "2 * k * unit_roundoff \<le> 1"
  proof -
    have "2 * k \<le> 2 ^ 21" using k1 by simp
    then have "2 * k * unit_roundoff \<le> 2 ^ 21 * unit_roundoff"
      using roundoff_facts(1) by (intro mult_right_mono) simp_all
    then show ?thesis using roundoff_facts(3) by linarith
  qed
  have kc: "2 * k * c \<le> A + 2 ^ 21 * underflow_unit"
  proof -
    have "2 * k * c = (2 * k * unit_roundoff) * A + 2 * k * underflow_unit"
      by (simp add: c_def algebra_simps)
    moreover have "(2 * k * unit_roundoff) * A \<le> 1 * A"
      using ku A0 by (intro mult_right_mono)
    moreover have "2 * k * underflow_unit \<le> 2 ^ 21 * underflow_unit"
      using k1 roundoff_facts(2) by (intro mult_right_mono) simp_all
    ultimately show ?thesis by linarith
  qed
  have b: "\<bar>s + w\<bar> \<le> A + 2 * k * c"
    using e t a by linarith
  have "\<bar>s + w\<bar> \<le> 2 ^ 1023"
    using b kc snoc.prems(2) roundoff_facts(4) by linarith
  then obtain s' where s': "round64 (s + w) = Finite s'"
    and e': "\<bar>s' - (s + w)\<bar> \<le> unit_roundoff * \<bar>s + w\<bar> + underflow_unit"
    using round64_finite by blast
  have "unit_roundoff * \<bar>s + w\<bar> \<le> unit_roundoff * (A + 2 * k * c)"
    using b roundoff_facts(1) by (intro mult_left_mono) simp_all
  also have "\<dots> = unit_roundoff * A + (2 * k * unit_roundoff) * c"
    by (simp add: algebra_simps)
  also have "\<dots> \<le> unit_roundoff * A + 1 * c"
    using ku c0 by (intro add_left_mono mult_right_mono)
  finally have f: "unit_roundoff * \<bar>s + w\<bar> \<le> unit_roundoff * A + c"
    by simp
  have "\<bar>s' - (s + w)\<bar> \<le> 2 * c"
    using f e' c_def by linarith
  then have "\<bar>s' - (sum_list ws + w)\<bar> \<le> 2 * k * c + 2 * c"
    using e by linarith
  also have "2 * k * c + 2 * c = 2 * real (length (ws @ [w])) * c"
    by (simp add: k_def algebra_simps)
  finally show ?case
    using s s' by (simp add: c_def)
qed

lemma mean_error:
  assumes "ws \<noteq> []" "sum_list (map abs ws) \<le> 2 ^ 1000" "length ws \<le> 2 ^ 20"
  shows "\<exists>m. fdiv (foldl fadd (Finite 0) (map Finite ws)) (Finite (real (length ws))) = Finite m
           \<and> \<bar>m - sum_list ws / real (length ws)\<bar>
               \<le> 2 powr (- 51) * sum_list (map abs ws) + 2 powr (- 1073)"
proof -
  define A where "A = sum_list (map abs ws)"
  define n where "n = real (length ws)"
  define c where "c = unit_roundoff * A + underflow_unit"
  have n1: "1 \<le> n" using assms(1) by (cases ws) (simp_all add: n_def)
  have n2: "n \<le> 2 ^ 20"
  proof -
    have "real (length ws) \<le> real (2 ^ 20)" using assms(3) by (rule of_nat_mono)
    then show ?thesis by (simp add: n_def)
  qed
  have A0: "0 \<le> A" unfolding A_def by (rule sum_list_nonneg) auto
  have A1: "A \<le> 2 ^ 1000" using assms(2) by (simp add: A_def)
  have c0: "0 \<le> c" using A0 roundoff_facts(1,2) by (simp add: c_def)
  obtain s where s: "foldl fadd (Finite 0) (map Finite ws) = Finite s"
    and e: "\<bar>s - sum_list ws\<bar> \<le> 2 * n * c"
    using foldl_fadd_error [of ws A] assms(3) A1 unfolding A_def n_def c_def by blast
  have t: "\<bar>sum_list ws\<bar> \<le> A" unfolding A_def by (rule sum_list_abs)
  have nu: "2 * n * unit_roundoff \<le> 1"
  proof -
    have "2 * n * unit_roundoff \<le> 2 ^ 21 * unit_roundoff"
      using n2 roundoff_facts(1) by (intro mult_right_mono) simp_all
    then show ?thesis using roundoff_facts(3) by linarith
  qed
  have nc: "2 * n * c \<le> A + 2 ^ 21 * underflow_unit"
  proof -
    have "2 * n * c = (2 * n * unit_roundoff) * A + 2 * n * underflow_unit"
      by (simp add: c_def algebra_simps)
    moreover have "(2 * n * unit_roundoff) * A \<le> 1 * A"
      using nu A0 by (intro mult_right_mono)
    moreover have "2 * n * underflow_unit \<le> 2 ^ 21 * underflow_unit"
      using n2 roundoff_facts(2) by (intro mult_right_mono) simp_all
    ultimately show ?thesis by linarith
  qed
  have sb: "\<bar>s\<bar> \<le> A + 2 * n * c" using e t by linarith
  have q: "\<bar>s / n\<bar> \<le> \<bar>s\<bar>"
  proof -
    have "\<bar>s / n\<bar> = \<bar>s\<bar> / n" using n1 by simp
    also have "\<dots> \<le> \<bar>s\<bar> / 1" using n1 by (intro divide_left_mono) simp_all
    finally show ?thesis by simp
  qed
  have "\<bar>s / n\<bar> \<le> 2 ^ 1023"
    using q sb nc A1 roundoff_facts(4) by linarith
  then obtain m where m: "round64 (s / n) = Finite m"
    and em: "\<bar>m - s / n\<bar> \<le> unit_roundoff * \<bar>s / n\<bar> + underflow_unit"
    using round64_finite by blast
  have "unit_roundoff * \<bar>s / n\<bar> \<le> unit_roundoff * (A + 2 * n * c)"
    using q sb roundoff_facts(1) by (intro mult_left_mono) simp_all
  also have "\<dots> = unit_roundoff * A + (2 * n * unit_roundoff) * c"
    by (simp add: algebra_simps)
  also have "\<dots> \<le> unit_roundoff * A + 1 * c"
    using nu c0 by (intro add_left_mono mult_right_mono)
  finally have f: "unit_roundoff * \<bar>s / n\<bar> \<le> unit_roundoff * A + c"
    by simp
  have 1: "\<bar>m - s / n\<bar> \<le> 2 * c"
    using f em c_def by linarith
  have "\<bar>s / n - sum_list ws / n\<bar> = \<bar>s - sum_list ws\<bar> / n"
    using n1 by (simp add: diff_divide_distrib [symmetric])
  also have "\<dots> \<le> (2 * n * c) / n"
    using e n1 by (intro divide_right_mono) simp_all
  also have "\<dots> = 2 * c" using n1 by simp
  finally have 2: "\<bar>s / n - sum_list ws / n\<bar> \<le> 2 * c" .
  have "\<bar>m - sum_list ws / n\<bar> \<le> 4 * c" using 1 2 by linarith
  also have "4 * c = 2 powr (- 51) * A + 2 powr (- 1073)"
    by (simp add: c_def unit_roundoff_def underflow_unit_def powr_minus powr_numeral)
  finally have "\<bar>m - sum_list ws / n\<bar> \<le> 2 powr (- 51) * A + 2 powr (- 1073)" .
  moreover have "fdiv (Finite s) (Finite n) = Finite m"
    using n1 m by simp
  ultimately show ?thesis
    using s unfolding A_def n_def by auto
qed

lemma round64_pos:
  assumes "1 \<le> x" "x \<le> 2 ^ 1023"
  shows "\<exists>r. round64 x = Finite r \<and> 0 < r"
proof -
  obtain r where r: "round64 x = Finite r"
    and e: "\<bar>r - x\<bar> \<le> unit_roundoff * \<bar>x\<bar> + underflow_unit"
    using round64_finite [of x] assms by auto
  have "unit_roundoff * \<bar>x\<bar> \<le> (1 / 4) * x"
    using assms(1) by (simp add: unit_roundoff_def powr_minus powr_numeral)
  moreover have "underflow_unit \<le> 1 / 4"
    by (simp add: underflow_unit_def powr_minus powr_numeral)
  ultimately have "0 < r" using e assms(1) by linarith
  with r show ?thesis by blast
qed


text \<open>
  An integer of magnitude below \<open>2 ^ 53\<close> is a binary64 number: it rounds to itself. This
  evaluates the rounding on the small whole numbers of the concrete tables.
\<close>

lemma round_half_even_int: "round_half_even (of_int j) = j"
  by (simp add: round_half_even_def)

lemma round64_int:
  assumes "\<bar>k\<bar> < 2 ^ 53"
  shows "round64 (of_int k) = Finite (of_int k)"
proof (cases "k = 0")
  case True
  then show ?thesis by (simp add: round64_def)
next
  case False
  define x :: real where "x = of_int k"
  define e where "e = \<lfloor>log 2 \<bar>x\<bar>\<rfloor>"
  have x1: "1 \<le> \<bar>x\<bar>" using False by (simp add: x_def flip: of_int_abs)
  have x2: "\<bar>x\<bar> < 2 ^ 53"
  proof -
    have "real_of_int \<bar>k\<bar> < real_of_int (2 ^ 53)" using assms by (simp only: of_int_less_iff)
    then show ?thesis by (simp add: x_def)
  qed
  have "0 \<le> log 2 \<bar>x\<bar>" using x1 by simp
  then have e0: "0 \<le> e" by (simp add: e_def)
  have "log 2 \<bar>x\<bar> < log 2 (2 ^ 53)" using x1 x2 by (subst log_less_cancel_iff) simp_all
  moreover have "log 2 ((2::real) ^ 53) = real 53" by (rule log_pow_cancel) simp_all
  ultimately have "log 2 \<bar>x\<bar> < 53" by (simp only: of_nat_numeral)
  then have e1: "e \<le> 52" unfolding e_def by linarith
  have ex: "exponent x = e" using e0 by (simp add: exponent_def e_def)
  define j where "j = nat (52 - e)"
  have q: "quantum x = 1 / 2 ^ j"
  proof -
    have "real_of_int e - 52 = - real j" using e1 by (simp add: j_def)
    then have "quantum x = 2 powr (- real j)" by (simp add: quantum_def ex)
    then show ?thesis by (simp add: powr_minus powr_realpow divide_inverse)
  qed
  have d: "x / quantum x = of_int (k * 2 ^ j)" unfolding q by (simp add: x_def)
  have r: "of_int (round_half_even (x / quantum x)) * quantum x = x"
    unfolding d round_half_even_int unfolding q by (simp add: x_def)
  have "\<bar>x\<bar> < 2 ^ 1024"
  proof -
    have "(2::real) ^ 53 \<le> 2 ^ 1024" by (rule power_increasing) simp_all
    with x2 show ?thesis by linarith
  qed
  then have "round64 x = Finite x"
    using x1 by (auto simp: round64_def r)
  then show ?thesis by (simp add: x_def)
qed

section \<open>Properties of the filter and of the sums\<close>

lemma bool_index_map: "bool_index rows (map P rows) = filter P rows"
  by (induction rows) (simp_all add: bool_index_def)

lemma filtered_data_filter:
  "filtered_data md (lo, hi) = filter (\<lambda>r. lo \<le> Year r \<and> Year r \<le> hi) md"
proof -
  have "and_mask (ge_mask (map Year md) lo) (le_mask (map Year md) hi)
        = map (\<lambda>r. lo \<le> Year r \<and> Year r \<le> hi) md"
    by (induction md) (simp_all add: and_mask_def ge_mask_def le_mask_def)
  then show ?thesis
    by (simp add: filtered_data_def bool_index_map)
qed

text \<open>The 64-bit sum is the sum of the integers, wrapped once.\<close>

lemma wrap64_id: "- (2 ^ 63) \<le> n \<Longrightarrow> n < 2 ^ 63 \<Longrightarrow> wrap64 n = n"
  by (simp add: wrap64_def)

lemma wrap64_range: "- (2 ^ 63) \<le> wrap64 n \<and> wrap64 n < 2 ^ 63"
proof -
  have "0 \<le> (n + 2 ^ 63) mod 2 ^ 64" "(n + 2 ^ 63) mod 2 ^ 64 < (2 ^ 64 :: int)"
    by simp_all
  then show ?thesis by (simp add: wrap64_def)
qed

lemma wrap64_add: "wrap64 (wrap64 a + b) = wrap64 (a + b)"
proof -
  have "(wrap64 a + b + 2 ^ 63) mod 2 ^ 64 = ((a + 2 ^ 63) mod 2 ^ 64 + b) mod 2 ^ 64"
    by (simp add: wrap64_def)
  also have "\<dots> = ((a + 2 ^ 63) + b) mod 2 ^ 64"
    by (rule mod_add_left_eq)
  also have "(a + 2 ^ 63) + b = a + b + 2 ^ 63"
    by simp
  finally show ?thesis by (simp add: wrap64_def)
qed

lemma int_sum_wrap64: "int_sum xs = wrap64 (sum_list xs)"
proof -
  have "foldl (\<lambda>a b. wrap64 (a + b)) (wrap64 a) xs = wrap64 (a + sum_list xs)" for a
    by (induction xs arbitrary: a) (simp_all add: wrap64_add add.assoc)
  from this [of 0] show ?thesis
    by (simp add: int_sum_def wrap64_def)
qed

lemma abs_sum_filter:
  "\<bar>sum_list (map f (filter P xs))\<bar> \<le> sum_list (map (\<lambda>x. \<bar>f x :: int\<bar>) xs)"
proof (induction xs)
  case Nil
  then show ?case by simp
next
  case (Cons x xs)
  then show ?case by (simp split: if_splits) linarith
qed

lemma int_sum_exact:
  assumes "sum_list (map (\<lambda>x. \<bar>f x\<bar>) xs) < 2 ^ 63"
  shows "int_sum (map f (filter P xs)) = sum_list (map f (filter P xs))"
proof -
  have "\<bar>sum_list (map f (filter P xs))\<bar> < 2 ^ 63"
    using abs_sum_filter [of f P xs] assms by linarith
  then show ?thesis
    unfolding int_sum_wrap64 by (intro wrap64_id) linarith+
qed

text \<open>Summing group by group over any finite set of keys that covers the rows.\<close>

lemma sum_groups:
  assumes "finite K" "set (map k rows) \<subseteq> K"
  shows "(\<Sum>y\<in>K. sum_list (map (f::'a \<Rightarrow> int) (filter (\<lambda>r. k r = y) rows)))
         = sum_list (map f rows)"
  using assms
proof (induction rows)
  case Nil
  then show ?case by simp
next
  case (Cons r rows)
  have "(\<Sum>y\<in>K. sum_list (map f (filter (\<lambda>r. k r = y) (r # rows))))
        = (\<Sum>y\<in>K. (if k r = y then f r else 0)
                     + sum_list (map f (filter (\<lambda>r. k r = y) rows)))"
    by (rule sum.cong) simp_all
  also have "\<dots> = (\<Sum>y\<in>K. if k r = y then f r else 0) + sum_list (map f rows)"
    using Cons by (simp add: sum.distrib)
  also have "(\<Sum>y\<in>K. if k r = y then f r else 0) = f r"
    using Cons.prems by simp
  finally show ?case by simp
qed

lemma sum_sorted_unique:
  "sum_list (map (g::int \<Rightarrow> int) (sorted_unique ks)) = sum g (set ks)"
proof -
  have "distinct (sorted_unique ks)" "set (sorted_unique ks) = set ks"
    by (simp_all add: sorted_unique_def)
  then show ?thesis
    by (metis sum_list_distinct_conv_sum_set)
qed

lemma Total_Arrests_exact:
  assumes "sum_list (map (\<lambda>r. \<bar>Arrests r\<bar>) fd) < 2 ^ 63"
  shows "map Total_Arrests (yearly_changes fd)
         = map (\<lambda>y. sum_list (map Arrests (filter (\<lambda>r. Year r = y) fd)))
               (sorted_unique (map Year fd))"
  by (simp add: yearly_changes_def groupby_Year_Arrests_def comp_def int_sum_exact [OF assms])

section \<open>The yearly changes\<close>

lemma nansum_shift_short: "length x \<le> 12 \<Longrightarrow> nansum (shift 12 x) = Finite 0"
  by (simp add: nansum_def shift_def isna_def)

lemma float_of_int_pos:
  assumes "0 < k" "k < 2 ^ 63"
  shows "\<exists>r. float_of_int k = Finite r \<and> 0 < r"
proof -
  have "1 \<le> real_of_int k" using assms(1) by simp
  moreover have "real_of_int k \<le> 2 ^ 1023"
  proof -
    have "real_of_int k \<le> real_of_int (2 ^ 63)" using assms(2) by (simp only: of_int_le_iff)
    also have "\<dots> = 2 ^ 63" by simp
    also have "\<dots> \<le> (2::real) ^ 1023" by (rule power_increasing) simp_all
    finally show ?thesis .
  qed
  ultimately show ?thesis
    unfolding float_of_int_def by (rule round64_pos)
qed

text \<open>
  In a group of at most twelve rows nothing is left after the shift, the denominator is
  \<open>0.0\<close>, and a positive total divided by it is infinite.
\<close>

lemma yoy_lambda_short:
  assumes "length x \<le> 12" "0 < int_sum x"
  shows "yoy_lambda x = PInf"
proof -
  have "int_sum x < 2 ^ 63"
    using wrap64_range [of "sum_list x"] by (simp add: int_sum_wrap64)
  then obtain r where "float_of_int (int_sum x) = Finite r" "0 < r"
    using float_of_int_pos [OF assms(2)] by blast
  then show ?thesis
    by (simp add: yoy_lambda_def nansum_shift_short [OF assms(1)] fsub_def)
qed

text \<open>
  C1 (the code at the failing input): for one full year of twelve months with ten arrests
  each, selected by the range 2018 to 2018, the table of yearly changes has the single line
  of 2018 with the total 120 and the \<^verbatim>\<open>YoY_Change\<close> plus infinity: the value that the claim
  says is never infinite. No period twelve positions earlier exists inside the group of one
  year, and the result is infinite instead of absent.
\<close>

theorem yearly_changes_infinite:
  "yearly_changes (filtered_data year_2018 (2018, 2018))
   = [\<lparr>yc_Year = 2018, Total_Arrests = 120, yc_YoY_Change = PInf\<rparr>]"
proof -
  have s: "int_sum [10, 10, 10, 10, 10, 10, 10, 10, 10, 10, 10, 10] = 120"
    by (simp add: int_sum_wrap64 wrap64_def)
  show ?thesis
    by (simp add: filtered_data_filter year_2018_def obs_row_def yearly_changes_def
        groupby_Year_Arrests_def sorted_unique_def yoy_lambda_short s)
qed

text \<open>
  C2: conservation across regrouping. For every monthly table and every range whose
  filtered rows have arrest counts of a total magnitude below \<open>2 ^ 63\<close> (so that no 64-bit
  sum wraps around), the \<^verbatim>\<open>Total_Arrests\<close> of the table of yearly changes, grouped by year
  from the filtered table, add up to the sum of the \<^verbatim>\<open>Arrests\<close> column of the filtered
  table, and the \<^verbatim>\<open>Total Arrests\<close> metric over the same rows is that sum.
\<close>

theorem Total_Arrests_conservation:
  assumes "sum_list (map (\<lambda>r. \<bar>Arrests r\<bar>) (filtered_data md yr)) < 2 ^ 63"
  shows "sum_list (map Total_Arrests (yearly_changes (filtered_data md yr)))
           = sum_list (map Arrests (filtered_data md yr))
         \<and> total_arrests (filtered_data md yr) = sum_list (map Arrests (filtered_data md yr))"
proof -
  let ?fd = "filtered_data md yr"
  have "sum_list (map Total_Arrests (yearly_changes ?fd)) = sum_list (map Arrests ?fd)"
    using sum_groups [of "set (map Year ?fd)" Year ?fd Arrests]
    by (simp add: Total_Arrests_exact [OF assms] sum_sorted_unique)
  moreover have "total_arrests ?fd = sum_list (map Arrests ?fd)"
    using int_sum_exact [OF assms, of "\<lambda>r. True"] by (simp add: total_arrests_def)
  ultimately show ?thesis by simp
qed

theorem Total_Arrests_conservation_witness:
  "sum_list (map Total_Arrests
       (yearly_changes (filtered_data (year_2018 @ [obs_row 2019 1 7 NaN]) (2018, 2019)))) = 127
   \<and> total_arrests (filtered_data (year_2018 @ [obs_row 2019 1 7 NaN]) (2018, 2019)) = 127"
  using Total_Arrests_conservation [of "year_2018 @ [obs_row 2019 1 7 NaN]" "(2018, 2019)"]
  by (simp add: filtered_data_filter year_2018_def obs_row_def)

section \<open>The average year-over-year change and the trend\<close>

lemma foldl_fadd_NaN: "foldl fadd NaN vs = NaN"
  by (induction vs) simp_all

lemma foldl_fadd_PInf: "NInf \<in> set vs \<Longrightarrow> foldl fadd PInf vs = NaN"
proof (induction vs)
  case Nil
  then show ?case by simp
next
  case (Cons x xs)
  then show ?case by (cases x) (auto simp: foldl_fadd_NaN)
qed

lemma foldl_fadd_NInf: "PInf \<in> set vs \<Longrightarrow> foldl fadd NInf vs = NaN"
proof (induction vs)
  case Nil
  then show ?case by simp
next
  case (Cons x xs)
  then show ?case by (cases x) (auto simp: foldl_fadd_NaN)
qed

text \<open>Both infinities in a column make its sum NaN, whatever the other values are.\<close>

lemma foldl_fadd_both:
  "PInf \<in> set vs \<Longrightarrow> NInf \<in> set vs \<Longrightarrow> foldl fadd acc vs = NaN"
proof (induction vs arbitrary: acc)
  case Nil
  then show ?case by simp
next
  case (Cons x xs)
  show ?case
  proof (cases x)
    case (Finite b)
    with Cons show ?thesis by simp
  next
    case PInf
    with Cons.prems have "NInf \<in> set xs" by simp
    with PInf show ?thesis
      by (cases acc) (simp_all add: foldl_fadd_NaN foldl_fadd_PInf)
  next
    case NInf
    with Cons.prems have "PInf \<in> set xs" by simp
    with NInf show ?thesis
      by (cases acc) (simp_all add: foldl_fadd_NaN foldl_fadd_NInf)
  next
    case NaN
    then show ?thesis
      by (cases acc) (simp_all add: foldl_fadd_NaN)
  qed
qed

lemma nanmean_absent: "\<forall>x\<in>set xs. x = NaN \<Longrightarrow> nanmean xs = NaN"
proof -
  assume "\<forall>x\<in>set xs. x = NaN"
  then have "filter (\<lambda>x. \<not> isna x) xs = []"
    by (auto simp: filter_empty_conv isna_def)
  then show ?thesis by (simp add: nanmean_def)
qed

lemma nanmean_both: "PInf \<in> set xs \<Longrightarrow> NInf \<in> set xs \<Longrightarrow> nanmean xs = NaN"
proof -
  assume a: "PInf \<in> set xs" "NInf \<in> set xs"
  then have "PInf \<in> set (filter (\<lambda>x. \<not> isna x) xs)" "NInf \<in> set (filter (\<lambda>x. \<not> isna x) xs)"
    by (simp_all add: isna_def)
  then have "nansum xs = NaN"
    unfolding nansum_def by (rule foldl_fadd_both)
  then show ?thesis by (simp add: nanmean_def Let_def)
qed

text \<open>
  The mean of a column whose values are finite: the values that are not NaN are summed
  and divided by their number, and the result is within the rounding error of their
  arithmetic mean.
\<close>

lemma nanmean_finite:
  assumes "\<forall>x\<in>set xs. x \<noteq> PInf \<and> x \<noteq> NInf"
    and "ws = map finite_value (filter (\<lambda>x. x \<noteq> NaN) xs)"
    and "ws \<noteq> []" "sum_list (map abs ws) \<le> 2 ^ 1000" "length ws \<le> 2 ^ 20"
  shows "\<exists>m. nanmean xs = Finite m
           \<and> \<bar>m - sum_list ws / real (length ws)\<bar>
               \<le> 2 powr (- 51) * sum_list (map abs ws) + 2 powr (- 1073)"
proof -
  let ?vs = "filter (\<lambda>x. \<not> isna x) xs"
  have "map (\<lambda>x. Finite (finite_value x)) ?vs = ?vs"
  proof (rule map_idI)
    fix x assume "x \<in> set ?vs"
    then have "x \<noteq> NaN" "x \<noteq> PInf" "x \<noteq> NInf"
      using assms(1) by (simp_all add: isna_def)
    then show "Finite (finite_value x) = x" by (cases x) simp_all
  qed
  then have v: "?vs = map Finite ws"
    by (simp add: assms(2) isna_def comp_def)
  then have l: "length ?vs = length ws" by simp
  have "nanmean xs = fdiv (foldl fadd (Finite 0) (map Finite ws)) (Finite (real (length ws)))"
    using assms(3) l by (simp add: nanmean_def nansum_def Let_def v)
  then show ?thesis
    using mean_error [OF assms(3-5)] by simp
qed

text \<open>
  C9 (as stated, at a concrete table): with plus infinity in one row and minus infinity in
  another, both in the selected range, no value is absent and yet the metric is undefined:
  the sum of the two infinities is NaN.
\<close>

theorem yoy_change_counterexample:
  "yoy_change (filtered_data [obs_row 2019 1 10 PInf, obs_row 2019 2 10 NInf] (2019, 2019)) = NaN
   \<and> YoY_Change (obs_row 2019 1 10 PInf) \<noteq> NaN
   \<and> YoY_Change (obs_row 2019 2 10 NInf) \<noteq> NaN"
  by (simp add: filtered_data_filter obs_row_def yoy_change_def nanmean_def nansum_def isna_def)

text \<open>
  C9 (amended): the \<^verbatim>\<open>Average YoY Change\<close> metric is the float64 mean of the values of
  the filtered rows that are not NaN; absent entries are skipped, not counted as zero.
  If every value of the selected range is absent, it is undefined. If plus infinity and
  minus infinity are both present, it is undefined as well. If no value is infinite, the
  table has at most \<open>2 ^ 20\<close> rows and the magnitudes of the present values add up to at
  most \<open>2 ^ 1000\<close> (no sum overflows), then it is undefined exactly when every value is
  absent, and otherwise it is a finite number that differs from the arithmetic mean of the
  present values by at most \<open>2 ^ (-51)\<close> times the sum of their magnitudes plus
  \<open>2 ^ (-1073)\<close>: the mean up to the rounding of the additions and of the division.
\<close>

theorem yoy_change_mean:
  "((\<forall>r\<in>set fd. YoY_Change r = NaN) \<longrightarrow> yoy_change fd = NaN)
   \<and> (PInf \<in> YoY_Change ` set fd \<and> NInf \<in> YoY_Change ` set fd \<longrightarrow> yoy_change fd = NaN)
   \<and> ((\<forall>r\<in>set fd. YoY_Change r \<noteq> PInf \<and> YoY_Change r \<noteq> NInf)
       \<and> length fd \<le> 2 ^ 20 \<and> sum_list (map abs (present_values fd)) \<le> 2 ^ 1000
      \<longrightarrow> (yoy_change fd = NaN \<longleftrightarrow> (\<forall>r\<in>set fd. YoY_Change r = NaN))
         \<and> (present_values fd \<noteq> [] \<longrightarrow>
              (\<exists>m. yoy_change fd = Finite m
                 \<and> \<bar>m - sum_list (present_values fd) / real (length (present_values fd))\<bar>
                     \<le> 2 powr (- 51) * sum_list (map abs (present_values fd))
                        + 2 powr (- 1073))))"
proof -
  have 1: "yoy_change fd = NaN" if "\<forall>r\<in>set fd. YoY_Change r = NaN"
    unfolding yoy_change_def using that by (intro nanmean_absent) simp
  have 2: "yoy_change fd = NaN"
    if "PInf \<in> YoY_Change ` set fd" "NInf \<in> YoY_Change ` set fd"
    unfolding yoy_change_def using that by (intro nanmean_both) simp_all
  have e: "(present_values fd = []) = (\<forall>r\<in>set fd. YoY_Change r = NaN)"
    by (auto simp: present_values_def filter_empty_conv)
  have 3: "\<exists>m. yoy_change fd = Finite m
             \<and> \<bar>m - sum_list (present_values fd) / real (length (present_values fd))\<bar>
                 \<le> 2 powr (- 51) * sum_list (map abs (present_values fd)) + 2 powr (- 1073)"
    if f: "\<forall>r\<in>set fd. YoY_Change r \<noteq> PInf \<and> YoY_Change r \<noteq> NInf"
      and l: "length fd \<le> 2 ^ 20"
      and b: "sum_list (map abs (present_values fd)) \<le> 2 ^ 1000"
      and n: "present_values fd \<noteq> []"
  proof -
    have "length (present_values fd) \<le> length fd"
      by (metis length_filter_le length_map present_values_def)
    then have l': "length (present_values fd) \<le> 2 ^ 20"
      using l by (rule order_trans)
    have f': "\<forall>x\<in>set (map YoY_Change fd). x \<noteq> PInf \<and> x \<noteq> NInf"
      using f by simp
    show ?thesis
      unfolding yoy_change_def
      by (rule nanmean_finite [OF f' present_values_def n b l'])
  qed
  have 4: "(yoy_change fd = NaN) = (\<forall>r\<in>set fd. YoY_Change r = NaN)"
    if f: "\<forall>r\<in>set fd. YoY_Change r \<noteq> PInf \<and> YoY_Change r \<noteq> NInf"
      and l: "length fd \<le> 2 ^ 20"
      and b: "sum_list (map abs (present_values fd)) \<le> 2 ^ 1000"
  proof (cases "present_values fd = []")
    case True
    then show ?thesis using 1 e by simp
  next
    case False
    then obtain m where "yoy_change fd = Finite m"
      using 3 [OF f l b] by blast
    then show ?thesis using False e by simp
  qed
  from 1 2 3 4 show ?thesis by blast
qed

lemma round64_numerals:
  "round64 50 = Finite 50" "round64 70 = Finite 70" "round64 35 = Finite 35"
  using round64_int [of 50] round64_int [of 70] round64_int [of 35] by simp_all

theorem yoy_change_mean_witness:
  "yoy_change [obs_row 2019 1 10 NaN] = NaN
   \<and> yoy_change [obs_row 2019 1 10 NaN, obs_row 2019 2 10 (Finite 50),
                  obs_row 2019 3 10 (Finite 20)] = Finite 35
   \<and> (\<exists>m. yoy_change [obs_row 2019 1 10 NaN, obs_row 2019 2 10 (Finite 50),
                        obs_row 2019 3 10 (Finite 20)] = Finite m
          \<and> \<bar>m - 35\<bar> \<le> 2 powr (- 51) * 70 + 2 powr (- 1073))"
proof -
  have v: "yoy_change [obs_row 2019 1 10 NaN, obs_row 2019 2 10 (Finite 50),
                       obs_row 2019 3 10 (Finite 20)] = Finite 35"
    by (simp add: yoy_change_def nanmean_def nansum_def isna_def obs_row_def round64_numerals)
  show ?thesis
    using v
      yoy_change_mean [of "[obs_row 2019 1 10 NaN]"]
      yoy_change_mean [of "[obs_row 2019 1 10 NaN, obs_row 2019 2 10 (Finite 50),
                            obs_row 2019 3 10 (Finite 20)]"]
    by (simp add: obs_row_def present_values_def)
qed

text \<open>
  C10: the \<^verbatim>\<open>Overall Trend\<close> indicator shows the upward symbol if and only if the average
  year-over-year change is greater than zero (a positive number or plus infinity). For an
  average of exactly zero it shows the downward symbol, and so it does for an undefined
  average, in particular when every \<^verbatim>\<open>YoY_Change\<close> of the selected range is absent.
\<close>

theorem trend_upward_iff:
  "(trend y = Chart_increasing \<longleftrightarrow> y = PInf \<or> (\<exists>a. y = Finite a \<and> 0 < a))
   \<and> trend (Finite 0) = Chart_decreasing
   \<and> trend NaN = Chart_decreasing
   \<and> ((\<forall>r\<in>set fd. YoY_Change r = NaN) \<longrightarrow>
        yoy_change fd = NaN \<and> trend (yoy_change fd) = Chart_decreasing)"
proof -
  have "trend y = Chart_increasing \<longleftrightarrow> y = PInf \<or> (\<exists>a. y = Finite a \<and> 0 < a)"
    by (cases y) (simp_all add: trend_def)
  moreover have "yoy_change fd = NaN" if "\<forall>r\<in>set fd. YoY_Change r = NaN"
    unfolding yoy_change_def using that by (intro nanmean_absent) simp
  ultimately show ?thesis
    by (simp add: trend_def)
qed

theorem trend_upward_iff_witness:
  "list_all (\<lambda>r. YoY_Change r = NaN) year_2018
   \<and> yoy_change year_2018 = NaN
   \<and> trend (yoy_change year_2018) = Chart_decreasing"
proof -
  have h: "\<forall>r\<in>set year_2018. YoY_Change r = NaN"
    by (simp add: year_2018_def obs_row_def)
  show ?thesis
    using h trend_upward_iff [of NaN year_2018] by (simp add: list_all_iff)
qed

section \<open>Runs of the script\<close>

lemma sorted_unique_Nil: "(sorted_unique ks = []) = (ks = [])"
  by (metis sorted_unique_def set_sort set_remdups set_empty)

lemma load_data_loaded:
  assumes "monthly_csv e = Contents md" "summary_csv e = Contents sd"
    "averages_csv e = Contents ma"
  shows "load_data e =
    ([Sidebar_write ''Looking for data files in:'' [if dirname e = [] then ''.'' else dirname e]],
     Some (md, sd, ma))"
  using assms by (simp add: load_data_def read_files_def read_csv_def Let_def)

lemma load_data_failed:
  assumes "\<not> (\<exists>md sd ma. monthly_csv e = Contents md \<and> summary_csv e = Contents sd
      \<and> averages_csv e = Contents ma)"
  shows "snd (load_data e) = None \<and> filter shows_data (fst (load_data e)) = []"
  using assms
  by (cases "monthly_csv e"; cases "summary_csv e"; cases "averages_csv e")
     (simp_all add: load_data_def read_files_def read_csv_def Let_def)

lemma load_data_cong:
  assumes "dirname e = dirname e'" "monthly_csv e = monthly_csv e'"
    "summary_csv e = summary_csv e'" "averages_csv e = averages_csv e'"
  shows "load_data e = load_data e'"
  unfolding load_data_def read_files_def assms by (rule refl)

lemma shows_data_header: "filter shows_data header = []"
  by (simp add: header_def)

lemma shows_data_footer: "filter shows_data (footer e) = []"
  by (simp add: footer_def)

lemma is_error_header: "filter is_error header = []"
  by (simp add: header_def)

text \<open>A run whose load fails stops without showing any data.\<close>

lemma run_failed:
  assumes "\<not> (\<exists>md sd ma. monthly_csv e = Contents md \<and> summary_csv e = Contents sd
      \<and> averages_csv e = Contents ma)"
  shows "snd (run e yr) = Stopped \<and> filter shows_data (fst (run e yr)) = []"
proof -
  obtain evs where l: "load_data e = (evs, None)" and f: "filter shows_data evs = []"
    using load_data_failed [OF assms] by (cases "load_data e") auto
  show ?thesis
    by (simp add: run_def l f shows_data_header)
qed

text \<open>The outcome and the data shown by a run that has loaded its three tables.\<close>

lemma run_outcome:
  assumes "monthly_csv e = Contents md" "summary_csv e = Contents sd"
    "averages_csv e = Contents ma"
  shows "snd (run e yr) =
     (if md = [] then Raised ValueError
      else case snd (tab2 (filtered_data md yr)) of
             Some err \<Rightarrow> Raised err
           | None \<Rightarrow> Completed)"
  by (cases "tab2 (filtered_data md yr)"; cases "snd (tab2 (filtered_data md yr))")
     (simp_all add: run_def load_data_loaded [OF assms] sorted_unique_Nil Let_def)

lemma run_shows:
  assumes "monthly_csv e = Contents md" "summary_csv e = Contents sd"
    "averages_csv e = Contents ma"
  shows "filter shows_data (fst (run e yr)) =
     (if md = [] then []
      else filter shows_data
        (key_metrics (filtered_data md yr) @ tab1 (filtered_data md yr)
         @ fst (tab2 (filtered_data md yr))
         @ (if snd (tab2 (filtered_data md yr)) = None
            then tab3 ma (filtered_data md yr) @ tab4 sd ma (filtered_data md yr) else [])))"
  by (cases "tab2 (filtered_data md yr)"; cases "snd (tab2 (filtered_data md yr))")
     (simp_all add: run_def load_data_loaded [OF assms] sorted_unique_Nil Let_def
        shows_data_header shows_data_footer)

text \<open>
  C3: for every monthly table and every range \<open>(lo, hi)\<close> (in particular with
  \<open>lo \<le> hi\<close>), the filtered table is exactly the list of the rows of the monthly table
  with \<open>lo \<le> Year \<le> hi\<close>, in their order and unchanged. The metrics, charts and
  tables of a run are computed from the filtered table and from the summary and
  monthly-averages tables: two runs on monthly tables (with rows) that have the same
  filtered table, with the same two other files, show the same data.
\<close>

theorem filtered_data_exact:
  "filtered_data md (lo, hi) = filter (\<lambda>r. lo \<le> Year r \<and> Year r \<le> hi) md
   \<and> (monthly_csv e = Contents md \<and> monthly_csv e' = Contents md'
       \<and> summary_csv e = summary_csv e' \<and> averages_csv e = averages_csv e'
       \<and> md \<noteq> [] \<and> md' \<noteq> []
       \<and> filtered_data md (lo, hi) = filtered_data md' (lo, hi)
      \<longrightarrow> filter shows_data (fst (run e (lo, hi))) = filter shows_data (fst (run e' (lo, hi))))"
proof -
  have "filter shows_data (fst (run e (lo, hi))) = filter shows_data (fst (run e' (lo, hi)))"
    if m: "monthly_csv e = Contents md" "monthly_csv e' = Contents md'"
      and s: "summary_csv e = summary_csv e'" and a: "averages_csv e = averages_csv e'"
      and n: "md \<noteq> []" "md' \<noteq> []"
      and f: "filtered_data md (lo, hi) = filtered_data md' (lo, hi)"
  proof (cases "\<exists>sd ma. summary_csv e = Contents sd \<and> averages_csv e = Contents ma")
    case True
    then obtain sd ma where l: "summary_csv e = Contents sd" "averages_csv e = Contents ma"
      by blast
    then have l': "summary_csv e' = Contents sd" "averages_csv e' = Contents ma"
      using s a by simp_all
    show ?thesis
      using n by (simp add: run_shows [OF m(1) l] run_shows [OF m(2) l'] f)
  next
    case False
    then have "\<not> (\<exists>md sd ma. monthly_csv e = Contents md \<and> summary_csv e = Contents sd
        \<and> averages_csv e = Contents ma)"
      and "\<not> (\<exists>md sd ma. monthly_csv e' = Contents md \<and> summary_csv e' = Contents sd
        \<and> averages_csv e' = Contents ma)"
      using s a by auto
    then show ?thesis
      by (simp add: run_failed)
  qed
  then show ?thesis
    by (simp add: filtered_data_filter)
qed

theorem filtered_data_exact_witness:
  "filtered_data (year_2018 @ [obs_row 2019 1 7 NaN]) (2018, 2018) = year_2018
   \<and> filter shows_data
       (fst (run (env_on ''2024-01-01'' (Contents (year_2018 @ [obs_row 2019 1 7 NaN]))
                   (Contents []) (Contents [])) (2018, 2018)))
     = filter shows_data
       (fst (run (env_on ''2024-01-01'' (Contents (obs_row 2017 12 3 NaN # year_2018))
                   (Contents []) (Contents [])) (2018, 2018)))"
  using filtered_data_exact
    [of "year_2018 @ [obs_row 2019 1 7 NaN]" 2018 2018
        "env_on ''2024-01-01'' (Contents (year_2018 @ [obs_row 2019 1 7 NaN])) (Contents []) (Contents [])"
        "env_on ''2024-01-01'' (Contents (obs_row 2017 12 3 NaN # year_2018)) (Contents []) (Contents [])"
        "obs_row 2017 12 3 NaN # year_2018"]
  by (simp add: env_on_def filtered_data_filter year_2018_def obs_row_def)

section \<open>Duplicate periods\<close>

lemma distinct_swap:
  "distinct (map (\<lambda>r. (Month r, Year r)) fd) = distinct (map (\<lambda>r. (Year r, Month r)) fd)"
proof -
  have "map (\<lambda>r. (Month r, Year r)) fd = map prod.swap (map (\<lambda>r. (Year r, Month r)) fd)"
    by simp
  moreover have "inj_on prod.swap A" for A :: "(int \<times> int) set"
    by (auto simp: inj_on_def)
  ultimately show ?thesis
    by (simp only: distinct_map) simp
qed

lemma tab2_outcome:
  "snd (tab2 fd) = (if distinct (map (\<lambda>r. (Year r, Month r)) fd) then None else Some ValueError)"
  by (simp add: tab2_def yearly_comparison_def yoy_pivot_def pivot_def distinct_swap)

lemma tab2_duplicates:
  "\<not> distinct (map (\<lambda>r. (Year r, Month r)) fd) \<Longrightarrow>
   tab2 fd = ([Markdown ''### Year-over-Year Comparison''], Some ValueError)"
  by (simp add: tab2_def yearly_comparison_def yoy_pivot_def pivot_def distinct_swap)

text \<open>
  C4 (as stated, at a concrete table): with January 2018 twice in the monthly table and
  the range 2018 to 2018, the run fails, and the exception is the \<^verbatim>\<open>ValueError\<close> of the
  first pivot, not \<^verbatim>\<open>MalformedInputError\<close>.
\<close>

theorem duplicate_raises_ValueError:
  "snd (run (env_on ''2024-01-01'' (Contents duplicate_2018) (Contents []) (Contents []))
          (2018, 2018)) = Raised ValueError
   \<and> snd (run (env_on ''2024-01-01'' (Contents duplicate_2018) (Contents []) (Contents []))
          (2018, 2018)) \<noteq> Raised MalformedInputError"
proof -
  have "snd (run (env_on ''2024-01-01'' (Contents duplicate_2018) (Contents []) (Contents []))
          (2018, 2018)) = Raised ValueError"
    by (subst run_outcome [of _ duplicate_2018 "[]" "[]"])
       (simp_all add: env_on_def tab2_outcome filtered_data_filter duplicate_2018_def
          obs_row_def)
  then show ?thesis by simp
qed

text \<open>
  C4 (amended): for every run that has loaded a monthly table with rows, if two rows of
  the selected year range have the same (Year, Month) pair, the run fails by raising
  \<^verbatim>\<open>ValueError\<close> at the first pivot: the duplicates are not aggregated into a pivot or a
  yearly table, but the key metrics and the chart of the monthly trends have been shown by
  then, computed from all filtered rows. Without such a pair the run completes. Duplicates
  outside the selected range are not looked at.
\<close>

theorem pivot_rejects_duplicates:
  assumes "monthly_csv e = Contents md" "summary_csv e = Contents sd"
    "averages_csv e = Contents ma"
    and "md \<noteq> []"
  shows "if distinct (map (\<lambda>r. (Year r, Month r)) (filtered_data md yr))
         then snd (run e yr) = Completed
         else snd (run e yr) = Raised ValueError
              \<and> filter shows_data (fst (run e yr))
                  = filter shows_data
                      (key_metrics (filtered_data md yr) @ tab1 (filtered_data md yr))"
  using assms(4)
  by (simp add: run_outcome [OF assms(1-3)] run_shows [OF assms(1-3)] tab2_outcome
      tab2_duplicates)

theorem pivot_rejects_duplicates_witness:
  "snd (run (env_on ''2024-01-01'' (Contents (year_2018 @ duplicate_2018)) (Contents [])
               (Contents [])) (2018, 2018)) = Raised ValueError
   \<and> snd (run (env_on ''2024-01-01'' (Contents year_2018) (Contents []) (Contents []))
            (2018, 2018)) = Completed"
  using pivot_rejects_duplicates
          [of "env_on ''2024-01-01'' (Contents (year_2018 @ duplicate_2018)) (Contents []) (Contents [])"
              "year_2018 @ duplicate_2018" "[]" "[]" "(2018, 2018)"]
        pivot_rejects_duplicates
          [of "env_on ''2024-01-01'' (Contents year_2018) (Contents []) (Contents [])"
              year_2018 "[]" "[]" "(2018, 2018)"]
  by (simp add: env_on_def filtered_data_filter duplicate_2018_def year_2018_def obs_row_def)

section \<open>A missing file\<close>

lemma names_in_message:
  "sublist monthly_name (not_found_message dir details)"
  "sublist summary_name (not_found_message dir details)"
  "sublist averages_name (not_found_message dir details)"
proof -
  let ?a = "newline @ ''Error: Could not find one or more data files.'' @ newline @ newline
     @ ''Please ensure the following files are in the directory '' @ dir @ '':'' @ newline
     @ ''- ''"
  let ?b = "newline @ ''- ''"
  let ?c = "newline @ newline @ ''Error details: '' @ details @ newline"
  have m: "not_found_message dir details
           = ?a @ monthly_name @ ?b @ summary_name @ ?b @ averages_name @ ?c"
    by (simp add: not_found_message_def)
  show "sublist monthly_name (not_found_message dir details)"
    unfolding m by (rule sublist_appendI)
  have "not_found_message dir details
        = (?a @ monthly_name @ ?b) @ summary_name @ (?b @ averages_name @ ?c)"
    unfolding m by simp
  then show "sublist summary_name (not_found_message dir details)"
    by (metis sublist_appendI)
  have "not_found_message dir details
        = (?a @ monthly_name @ ?b @ summary_name @ ?b) @ averages_name @ ?c"
    unfolding m by simp
  then show "sublist averages_name (not_found_message dir details)"
    by (metis sublist_appendI)
qed

lemma load_data_missing:
  assumes "monthly_csv e = File_missing
     \<or> (\<exists>md. monthly_csv e = Contents md
          \<and> (summary_csv e = File_missing
              \<or> (\<exists>sd. summary_csv e = Contents sd \<and> averages_csv e = File_missing)))"
  shows "\<exists>details. load_data e =
     ([Sidebar_write ''Looking for data files in:'' [if dirname e = [] then ''.'' else dirname e],
       Error (not_found_message (if dirname e = [] then ''.'' else dirname e) details)], None)"
  using assms by (auto simp: load_data_def read_files_def read_csv_def Let_def)

text \<open>
  C6: if the load raises \<^verbatim>\<open>FileNotFoundError\<close> (one of the three files is missing, and the
  files read before it are tables), the run shows, after the page header and the line of
  the sidebar that tells where it looks, one error message, which names the three expected
  files, and stops there: the message is the only error shown and the last thing shown, and
  no metric, chart or table is rendered.
\<close>

theorem missing_file_stops:
  assumes "monthly_csv e = File_missing
     \<or> (\<exists>md. monthly_csv e = Contents md
          \<and> (summary_csv e = File_missing
              \<or> (\<exists>sd. summary_csv e = Contents sd \<and> averages_csv e = File_missing)))"
  shows "\<exists>msg. run e yr =
           (header @ [Sidebar_write ''Looking for data files in:''
                        [if dirname e = [] then ''.'' else dirname e],
                      Error msg], Stopped)
         \<and> sublist monthly_name msg \<and> sublist summary_name msg \<and> sublist averages_name msg
         \<and> filter is_error (fst (run e yr)) = [Error msg]
         \<and> filter shows_data (fst (run e yr)) = []"
proof -
  obtain details where l: "load_data e =
     ([Sidebar_write ''Looking for data files in:'' [if dirname e = [] then ''.'' else dirname e],
       Error (not_found_message (if dirname e = [] then ''.'' else dirname e) details)], None)"
    using load_data_missing [OF assms] by blast
  show ?thesis
    by (rule exI [of _ "not_found_message (if dirname e = [] then ''.'' else dirname e) details"])
       (simp add: run_def l names_in_message is_error_header shows_data_header)
qed

theorem missing_file_stops_witness:
  "snd (run (env_on ''2024-01-01'' (Contents year_2018) File_missing (Contents []))
          (2018, 2018)) = Stopped
   \<and> filter shows_data
        (fst (run (env_on ''2024-01-01'' (Contents year_2018) File_missing (Contents []))
                (2018, 2018))) = []
   \<and> length (filter is_error
        (fst (run (env_on ''2024-01-01'' (Contents year_2018) File_missing (Contents []))
                (2018, 2018)))) = 1"
  using missing_file_stops
    [of "env_on ''2024-01-01'' (Contents year_2018) File_missing (Contents [])" "(2018, 2018)"]
  by (auto simp: env_on_def)

section \<open>Two runs on the same tables\<close>

text \<open>
  C8: the derived values of a run are a function of the three tables and the year range
  alone. Two runs on the same three files and the same range, whatever the date, the
  working directory and its listing are, show the same metrics, charts and tables (the
  filtered table, the pivots and the yearly changes are among the data they carry) and end
  with the same outcome; and a run that fails does so identically on retry from the same
  directory: the same events and the same exception or stop.
\<close>

theorem run_deterministic:
  assumes "monthly_csv e = monthly_csv e'" "summary_csv e = summary_csv e'"
    "averages_csv e = averages_csv e'"
  shows "filter shows_data (fst (run e yr)) = filter shows_data (fst (run e' yr))
         \<and> snd (run e yr) = snd (run e' yr)
         \<and> (dirname e = dirname e' \<and> snd (run e yr) \<noteq> Completed \<longrightarrow> run e yr = run e' yr)"
proof -
  have 1: "filter shows_data (fst (run e yr)) = filter shows_data (fst (run e' yr))
           \<and> snd (run e yr) = snd (run e' yr)"
  proof (cases "\<exists>md sd ma. monthly_csv e = Contents md \<and> summary_csv e = Contents sd
      \<and> averages_csv e = Contents ma")
    case True
    then obtain md sd ma where l: "monthly_csv e = Contents md" "summary_csv e = Contents sd"
      "averages_csv e = Contents ma" by blast
    then have l': "monthly_csv e' = Contents md" "summary_csv e' = Contents sd"
      "averages_csv e' = Contents ma" using assms by simp_all
    show ?thesis
      by (simp only: run_shows [OF l] run_shows [OF l'] run_outcome [OF l] run_outcome [OF l'])
  next
    case False
    then have "\<not> (\<exists>md sd ma. monthly_csv e' = Contents md \<and> summary_csv e' = Contents sd
        \<and> averages_csv e' = Contents ma)"
      using assms by simp
    with False show ?thesis
      by (simp add: run_failed)
  qed
  have 2: "run e yr = run e' yr"
    if d: "dirname e = dirname e'" and f: "snd (run e yr) \<noteq> Completed"
  proof -
    have l: "load_data e = load_data e'"
      using d assms by (rule load_data_cong)
    show ?thesis
      using f unfolding run_def l
      by (auto simp: Let_def split: prod.splits option.splits)
  qed
  from 1 2 show ?thesis by blast
qed

theorem run_deterministic_witness:
  "snd (run (env_on ''2024-01-01'' (Contents duplicate_2018) (Contents []) (Contents []))
          (2018, 2018)) \<noteq> Completed
   \<and> run (env_on ''2024-01-01'' (Contents duplicate_2018) (Contents []) (Contents []))
          (2018, 2018)
     = run (env_on ''2024-06-30'' (Contents duplicate_2018) (Contents []) (Contents []))
          (2018, 2018)
   \<and> filter shows_data
        (fst (run (env_on ''2024-01-01'' (Contents year_2018) (Contents []) (Contents []))
                (2018, 2018)))
     = filter shows_data
        (fst (run (env_on ''2024-06-30'' (Contents year_2018) (Contents []) (Contents []))
                (2018, 2018)))"
proof -
  have f: "snd (run (env_on ''2024-01-01'' (Contents duplicate_2018) (Contents []) (Contents []))
                  (2018, 2018)) \<noteq> Completed"
    by (subst run_outcome [of _ duplicate_2018 "[]" "[]"])
       (simp_all add: env_on_def tab2_outcome filtered_data_filter duplicate_2018_def
          obs_row_def)
  show ?thesis
    using f
      run_deterministic
        [of "env_on ''2024-01-01'' (Contents duplicate_2018) (Contents []) (Contents [])"
            "env_on ''2024-06-30'' (Contents duplicate_2018) (Contents []) (Contents [])"
            "(2018, 2018)"]
      run_deterministic
        [of "env_on ''2024-01-01'' (Contents year_2018) (Contents []) (Contents [])"
            "env_on ''2024-06-30'' (Contents year_2018) (Contents []) (Contents [])"
            "(2018, 2018)"]
    by (simp add: env_on_def)
qed

section \<open>The loaded table is left as it is\<close>

lemma lookup_new: "lookup (h @ [v]) (length h) = Some v"
  by (simp add: lookup_def)

text \<open>The store and the names after the derived computations, statement by statement.\<close>

lemma derive_result:
  assumes "lookup h monthly_data = Some (DataFrame rows)"
  shows "derive h monthly_data yr =
    (let fd = filtered_data rows yr; h1 = h @ [DataFrame fd] in
     case yearly_comparison fd of
       Inl err \<Rightarrow> (h1, Inl err)
     | Inr yc \<Rightarrow>
         (case yoy_pivot fd of
            Inl err \<Rightarrow> (h1 @ [Int_pivot yc], Inl err)
          | Inr yp \<Rightarrow>
              (h1 @ [Int_pivot yc, Float_pivot yp, Changes (yearly_changes fd)],
               Inr \<lparr>n_filtered_data = length h, n_yearly_comparison = length h + 1,
                    n_yoy_pivot = length h + 2, n_yearly_changes = length h + 3\<rparr>)))"
  using assms
  by (simp add: derive_def new_def lookup_new Let_def split: sum.splits)

text \<open>
  C7: no derived computation writes into its source. If the name \<^verbatim>\<open>monthly_data\<close> refers
  to the loaded table, then after the filter, the two pivots and the group-by aggregation
  (also when a pivot raises on the way) it still refers to the same rows and values, and
  so does every object that existed before. When the four derived tables are built, each
  is a new object: its reference refers to nothing in the store before, the four
  references differ from each other, and they hold the filtered table, the two pivots of
  the filtered table and its yearly changes.
\<close>

theorem derive_frame:
  assumes "lookup h monthly_data = Some (DataFrame rows)"
  shows "lookup (fst (derive h monthly_data yr)) monthly_data = Some (DataFrame rows)
    \<and> take (length h) (fst (derive h monthly_data yr)) = h
    \<and> (\<forall>n. snd (derive h monthly_data yr) = Inr n \<longrightarrow>
          lookup h (n_filtered_data n) = None
        \<and> lookup h (n_yearly_comparison n) = None
        \<and> lookup h (n_yoy_pivot n) = None
        \<and> lookup h (n_yearly_changes n) = None
        \<and> distinct [n_filtered_data n, n_yearly_comparison n, n_yoy_pivot n, n_yearly_changes n]
        \<and> lookup (fst (derive h monthly_data yr)) (n_filtered_data n)
            = Some (DataFrame (filtered_data rows yr))
        \<and> (\<exists>yc. yearly_comparison (filtered_data rows yr) = Inr yc
              \<and> lookup (fst (derive h monthly_data yr)) (n_yearly_comparison n)
                  = Some (Int_pivot yc))
        \<and> (\<exists>yp. yoy_pivot (filtered_data rows yr) = Inr yp
              \<and> lookup (fst (derive h monthly_data yr)) (n_yoy_pivot n) = Some (Float_pivot yp))
        \<and> lookup (fst (derive h monthly_data yr)) (n_yearly_changes n)
            = Some (Changes (yearly_changes (filtered_data rows yr))))"
proof -
  have a: "monthly_data < length h" and b: "h ! monthly_data = DataFrame rows"
    using assms by (simp_all add: lookup_def split: if_splits)
  show ?thesis
    unfolding derive_result [OF assms] Let_def
    using a b
    by (cases "yearly_comparison (filtered_data rows yr)";
        cases "yoy_pivot (filtered_data rows yr)")
       (simp_all add: lookup_def nth_append)
qed

lemma derive_names:
  assumes "lookup h monthly_data = Some (DataFrame rows)"
    and "distinct (map (\<lambda>r. (Year r, Month r)) (filtered_data rows yr))"
  shows "snd (derive h monthly_data yr) =
     Inr \<lparr>n_filtered_data = length h, n_yearly_comparison = length h + 1,
          n_yoy_pivot = length h + 2, n_yearly_changes = length h + 3\<rparr>"
  using assms(2)
  by (simp add: derive_result [OF assms(1)] Let_def yearly_comparison_def yoy_pivot_def
      pivot_def distinct_swap)

theorem derive_frame_witness:
  "lookup [DataFrame year_2018] 0 = Some (DataFrame year_2018)
   \<and> snd (derive [DataFrame year_2018] 0 (2018, 2018)) =
       Inr \<lparr>n_filtered_data = 1, n_yearly_comparison = 2, n_yoy_pivot = 3, n_yearly_changes = 4\<rparr>
   \<and> lookup (fst (derive [DataFrame year_2018] 0 (2018, 2018))) 0 = Some (DataFrame year_2018)
   \<and> lookup (fst (derive [DataFrame year_2018] 0 (2018, 2018))) 1
       = Some (DataFrame (filtered_data year_2018 (2018, 2018)))
   \<and> lookup [DataFrame year_2018] 1 = None"
proof -
  have l: "lookup [DataFrame year_2018] 0 = Some (DataFrame year_2018)"
    by (simp add: lookup_def)
  have d: "distinct (map (\<lambda>r. (Year r, Month r)) (filtered_data year_2018 (2018, 2018)))"
    by (simp add: filtered_data_filter year_2018_def obs_row_def)
  have n: "snd (derive [DataFrame year_2018] 0 (2018, 2018)) =
       Inr \<lparr>n_filtered_data = 1, n_yearly_comparison = 2, n_yoy_pivot = 3, n_yearly_changes = 4\<rparr>"
    using derive_names [OF l d] by simp
  show ?thesis
    using l n derive_frame [OF l, of "(2018, 2018)"] by simp
qed

section \<open>The rolling averages\<close>

lemma length_windows: "0 < k \<Longrightarrow> length (windows k xs) = Suc (length xs) - k"
  by (induction xs) auto

lemma windows_nth:
  "0 < k \<Longrightarrow> i + k \<le> length xs \<Longrightarrow> windows k xs ! i = take k (drop i xs)"
proof (induction xs arbitrary: i)
  case Nil
  then show ?case by simp
next
  case (Cons x xs)
  show ?case
  proof (cases i)
    case 0
    with Cons.prems show ?thesis by simp
  next
    case (Suc j)
    with Cons.prems have "j + k \<le> length xs" by simp
    with Cons.IH [OF Cons.prems(1) this] Suc Cons.prems show ?thesis by simp
  qed
qed

lemma length_rolling_mean: "0 < k \<Longrightarrow> length (rolling_mean k xs) = length xs"
  by (auto simp: rolling_mean_def length_windows)

lemma rolling_mean_nth:
  assumes "0 < k" "i < length xs"
  shows "rolling_mean k xs ! i =
     (if k - 1 \<le> i then Some (mean (take k (drop (i + 1 - k) xs))) else None)"
proof (cases "k - 1 \<le> i")
  case False
  then have "i < min (k - 1) (length xs)" using assms by simp
  then show ?thesis
    using False by (simp add: rolling_mean_def nth_append)
next
  case True
  let ?pad = "replicate (min (k - 1) (length xs)) (None :: real option)"
  have m: "length ?pad = k - 1" using True assms by simp
  have j: "i - (k - 1) < length (windows k xs)"
    using True assms by (simp add: length_windows)
  have w: "windows k xs ! (i - (k - 1)) = take k (drop (i - (k - 1)) xs)"
    using True assms by (intro windows_nth) simp_all
  have e: "i - (k - 1) = i + 1 - k" using True assms by simp
  have "rolling_mean k xs ! i = map (\<lambda>w. Some (mean w)) (windows k xs) ! (i - (k - 1))"
    unfolding rolling_mean_def using True m by (simp only: nth_append) simp
  also have "\<dots> = Some (mean (take k (drop (i - (k - 1)) xs)))"
    using j w by simp
  finally show ?thesis
    using True e by simp
qed

lemma take_drop_nths:
  "j + k \<le> length xs \<Longrightarrow> take k (drop j xs) = map ((!) xs) [j..<j + k]"
  by (rule nth_equalityI) simp_all

text \<open>
  C5: in the monthly table computed from the observations sorted by (Year, Month) (a
  series that is sorted already stays as it is), the two columns have one entry for each
  observation; the 3-month trailing average at the 0-indexed position \<open>i\<close> is defined if
  and only if \<open>2 \<le> i\<close>, and is then the mean of the arrests at the positions \<open>i - 2\<close> to
  \<open>i\<close>; the 12-month trailing average is defined if and only if \<open>11 \<le> i\<close>, and is then
  the mean of the arrests at the positions \<open>i - 11\<close> to \<open>i\<close>. Earlier positions hold no
  value: no average over a partial window.
\<close>

theorem rolling_averages:
  assumes "i < length obs"
  shows "sorted (map period (sort_observations obs))
    \<and> (sorted (map period obs) \<longrightarrow> sort_observations obs = obs)
    \<and> length (avg_3_month obs) = length obs
    \<and> length (avg_12_month obs) = length obs
    \<and> avg_3_month obs ! i =
        (if 2 \<le> i
         then Some (mean (map (\<lambda>j. count (sort_observations obs ! j)) [i - 2..<i + 1]))
         else None)
    \<and> avg_12_month obs ! i =
        (if 11 \<le> i
         then Some (mean (map (\<lambda>j. count (sort_observations obs ! j)) [i - 11..<i + 1]))
         else None)"
proof -
  let ?s = "sort_observations obs"
  let ?a = "map count ?s"
  have n: "length ?a = length obs" "length ?s = length obs"
    by (simp_all add: sort_observations_def)
  have w: "take k (drop (i + 1 - k) ?a) = map (\<lambda>j. count (?s ! j)) [i + 1 - k..<i + 1]"
    if "k - 1 \<le> i" "0 < k" for k
  proof -
    have "i + 1 - k + k \<le> length ?a" using that assms n by simp
    then have "take k (drop (i + 1 - k) ?a) = map ((!) ?a) [i + 1 - k..<i + 1 - k + k]"
      by (rule take_drop_nths)
    also have "i + 1 - k + k = i + 1" using that by simp
    also have "map ((!) ?a) [i + 1 - k..<i + 1] = map (\<lambda>j. count (?s ! j)) [i + 1 - k..<i + 1]"
    proof (rule map_cong [OF refl])
      fix j assume "j \<in> set [i + 1 - k..<i + 1]"
      then have "j \<le> i" by auto
      then have "j < length ?s" using assms n by simp
      then show "?a ! j = count (?s ! j)" by (rule nth_map)
    qed
    finally show ?thesis .
  qed
  have 3: "avg_3_month obs ! i =
        (if 2 \<le> i then Some (mean (map (\<lambda>j. count (?s ! j)) [i - 2..<i + 1])) else None)"
    using rolling_mean_nth [of 3 i ?a] w [of 3] assms n
    by (simp add: avg_3_month_def)
  have 12: "avg_12_month obs ! i =
        (if 11 \<le> i then Some (mean (map (\<lambda>j. count (?s ! j)) [i - 11..<i + 1])) else None)"
    using rolling_mean_nth [of 12 i ?a] w [of 12] assms n
    by (simp add: avg_12_month_def)
  show ?thesis
    using 3 12
    by (simp add: avg_3_month_def avg_12_month_def length_rolling_mean sort_observations_def
        sort_key_id_if_sorted)
qed

theorem rolling_averages_witness:
  "sort_observations scenario = scenario
   \<and> avg_3_month scenario ! 2 = Some 20
   \<and> avg_3_month scenario ! 1 = None
   \<and> avg_12_month scenario ! 3 = None"
proof -
  have s: "sorted (map period scenario)"
    by (simp add: scenario_def period_def)
  have e: "sort_observations scenario = scenario"
    using s rolling_averages [of 2 scenario] by (simp add: scenario_def)
  show ?thesis
    using e rolling_averages [of 2 scenario] rolling_averages [of 1 scenario] rolling_averages [of 3 scenario]
    by (simp add: scenario_def mean_def count_def upt_rec)
qed

end
